theory Spec2Isabelle
  imports Main
begin

section \<open>The Go library functions the generator calls\<close>

text \<open>
  Go strings are byte sequences; they are modelled as \<open>string\<close> (a list of 8-bit
  characters). Every cutset, separator and replaced substring of the source is ASCII, so
  the byte-wise definitions below agree with the rune-wise library functions.
\<close>

text \<open>\<^verbatim>\<open>strings.TrimRight(s, cutset)\<close>: drop every trailing character that is in the
  cutset.\<close>

definition TrimRight :: "string \<Rightarrow> string \<Rightarrow> string" where
  "TrimRight s cutset = rev (dropWhile (\<lambda>c. c \<in> set cutset) (rev s))"

text \<open>\<^verbatim>\<open>strings.TrimSuffix(s, suffix)\<close>: drop the suffix once, when \<open>s\<close> ends with it.\<close>

definition TrimSuffix :: "string \<Rightarrow> string \<Rightarrow> string" where
  "TrimSuffix s suffix =
     (if length suffix \<le> length s \<and> drop (length s - length suffix) s = suffix
      then take (length s - length suffix) s else s)"

text \<open>\<^verbatim>\<open>strings.ReplaceAll(s, old, new)\<close> for a one-character \<open>old\<close>, the only way the
  source calls it.\<close>

fun ReplaceAll :: "string \<Rightarrow> char \<Rightarrow> string \<Rightarrow> string" where
  "ReplaceAll [] old new = []"
| "ReplaceAll (c # cs) old new =
     (if c = old then new @ ReplaceAll cs old new else c # ReplaceAll cs old new)"

text \<open>\<^verbatim>\<open>strings.Split(s, sep)\<close> for a one-character separator: one more piece than
  there are separators, empty pieces kept; the empty string splits into one empty piece.\<close>

fun Split :: "string \<Rightarrow> char \<Rightarrow> string list" where
  "Split [] sep = [[]]"
| "Split (c # cs) sep =
     (if c = sep then [] # Split cs sep
      else (case Split cs sep of [] \<Rightarrow> [[c]] | t # ts \<Rightarrow> (c # t) # ts))"

text \<open>\<^verbatim>\<open>strconv.Itoa\<close> and the verb \<^verbatim>\<open>%v\<close> on the loop counters. The counters start
  at 1 and go up by one for each field, so they are never negative, and a slice holds
  fewer than \<open>2^63\<close> fields, so no value that is printed has wrapped: they are \<open>nat\<close>.\<close>

definition digitChar :: "nat \<Rightarrow> char" where
  "digitChar d = ''0123456789'' ! d"

fun Itoa :: "nat \<Rightarrow> string" where
  "Itoa n = (if n < 10 then [digitChar n] else Itoa (n div 10) @ [digitChar (n mod 10)])"

declare Itoa.simps [simp del]

section \<open>Data model\<close>

text \<open>What the generator reads of the parser's tree: of a field its names, its type
  expression and the source text of its tag literal (absent when the field has no tag); of
  a type specification its name and its type expression.\<close>

datatype error = IndexOutOfRange | TypeAssertion | WriteFailed

datatype Expr = Ident string | SelectorExpr Expr string | StarExpr Expr | ArrayType Expr

record ast_Field =
  Names :: "string list"
  Type :: Expr
  Tag :: "string option"

datatype TypeExpr = StructType "ast_Field list" | NotStructType Expr

record ast_TypeSpec =
  Name :: string
  Type :: TypeExpr

record Field =
  Name :: string
  Type :: string
  tags :: "string \<rightharpoonup> string"

record Structure =
  packageName :: string
  tableName :: string
  name :: string
  fields_list :: "Field list"

record Method =
  comment :: string
  name :: string
  iParams :: string
  oParams :: string
  body :: string

text \<open>Reading a Go map at a key it does not hold gives the zero value, the empty string.\<close>

definition tagValue :: "Field \<Rightarrow> string \<Rightarrow> string" where
  "tagValue field k = (case tags field k of None \<Rightarrow> [] | Some v \<Rightarrow> v)"

section \<open>Statement assembler\<close>

definition generateExec :: "string \<Rightarrow> string \<Rightarrow> string \<Rightarrow> string" where
  \<open>generateExec methodName sqlRequest insertingValueString =
     (CHR 0x09 # ''ctg, err := p.db.Exec(ctx, '' @ sqlRequest @ '', '' @ insertingValueString @ '')\<newline>'')
     @ (CHR 0x09 # ''if err != nil {\<newline>'')
     @ ([CHR 0x09, CHR 0x09] @ ''return fmt.Errorf("'' @ methodName @ '' error: '' @ ''%w'' @ '' ", err)\<newline>'')
     @ (CHR 0x09 # ''}\<newline>'')
     @ (CHR 0x09 # ''if ctg.RowsAffected() == 0 {\<newline>'')
     @ ([CHR 0x09, CHR 0x09] @ ''return fmt.Errorf("'' @ methodName @ '' error: no rows affected")\<newline>'')
     @ (CHR 0x09 # ''}\<newline>\<newline>'')
     @ (CHR 0x09 # ''return nil'')\<close>

definition generateQueryRow :: "string \<Rightarrow> string \<Rightarrow> string \<Rightarrow> string \<Rightarrow> string" where
  \<open>generateQueryRow methodName sqlRequest whereValue scanString =
     (CHR 0x09 # ''err = p.db.QueryRow(ctx, '' @ sqlRequest @ '', '' @ whereValue @ '').Scan('' @ scanString @ '')\<newline>'')
     @ (CHR 0x09 # ''if err != nil {\<newline>'')
     @ ([CHR 0x09, CHR 0x09] @ ''return nil, fmt.Errorf("'' @ methodName @ '' error: '' @ ''%w'' @ '' ", err)\<newline>'')
     @ (CHR 0x09 # ''}\<newline>\<newline>'')
     @ (CHR 0x09 # ''return element, nil'')\<close>

section \<open>Operation synthesizers\<close>

subsection \<open>Create\<close>

text \<open>The loop of \<^verbatim>\<open>generateCreate\<close>; its state is
  \<open>(valuesString, paramsString, insertingValueString, index)\<close>.\<close>

fun createLoop :: "Field list \<Rightarrow> string \<times> string \<times> string \<times> nat \<Rightarrow> string \<times> string \<times> string \<times> nat" where
  "createLoop [] st = st"
| "createLoop (field # rest) (valuesString, paramsString, insertingValueString, index) =
     createLoop rest
       (valuesString @ ''$'' @ Itoa index @ '', '',
        paramsString @ tagValue field ''column'' @ '', '',
        insertingValueString @ ''data.'' @ Name field @ '', '',
        index + 1)"

definition generateCreate :: "Structure \<Rightarrow> Method" where
  \<open>generateCreate structure =
     (let methodName = Structure.name structure @ ''Create'';
          (valuesString, paramsString, insertingValueString, index) =
             createLoop (fields_list structure) ([], [], [], 1);
          valuesString = TrimRight valuesString '', '';
          paramsString = TrimRight paramsString '', '';
          insertingValueString = TrimRight insertingValueString '', '';
          sqlRequest = ''"INSERT INTO '' @ tableName structure @ '' ('' @ paramsString
                         @ '') VALUES ('' @ valuesString @ '')"''
      in \<lparr>comment = ''// '' @ methodName @ '' add new '' @ Structure.name structure @ '' to database'',
          name = methodName,
          iParams = ''ctx context.Context, data *'' @ packageName structure @ ''.'' @ Structure.name structure,
          oParams = ''err error'',
          body = generateExec methodName sqlRequest insertingValueString\<rparr>)\<close>

subsection \<open>Select\<close>

text \<open>The loop of \<^verbatim>\<open>generateSelect\<close>; its state is
  \<open>(iParams, whereValue, whereString, paramsString, scanString, index)\<close>.\<close>

fun selectLoop :: "Field list \<Rightarrow> string \<times> string \<times> string \<times> string \<times> string \<times> nat
    \<Rightarrow> string \<times> string \<times> string \<times> string \<times> string \<times> nat" where
  "selectLoop [] st = st"
| "selectLoop (field # rest) (iPar, whereValue, whereString, paramsString, scanString, index) =
     (if tagValue field ''primary'' = ''true''
      then selectLoop rest
        (iPar @ Name field @ '' '' @ Type field @ '', '',
         whereValue @ Name field @ '', '',
         whereString @ tagValue field ''column'' @ '' = $'' @ Itoa index @ '' AND '',
         paramsString @ tagValue field ''column'' @ '', '',
         scanString @ ''element.'' @ Name field @ '', '',
         index + 1)
      else selectLoop rest
        (iPar, whereValue, whereString,
         paramsString @ tagValue field ''column'' @ '', '',
         scanString @ ''element.'' @ Name field @ '', '',
         index))"

definition generateSelect :: "Structure \<Rightarrow> Method" where
  \<open>generateSelect structure =
     (let methodName = Structure.name structure @ ''Select'';
          (iPar, whereValue, whereString, paramsString, scanString, index) =
             selectLoop (fields_list structure) (''ctx context.Context, '', [], [], [], [], 1);
          iPar = TrimRight iPar '', '';
          whereString = TrimRight whereString ''AND '';
          whereValue = TrimRight whereValue '', '';
          paramsString = TrimSuffix paramsString '', '';
          scanString = TrimSuffix scanString '', '';
          sqlRequest = ''"SELECT ('' @ paramsString @ '') FROM '' @ tableName structure
                         @ '' WHERE ('' @ whereString @ '')"''
      in \<lparr>comment = ''// '' @ methodName @ '' get '' @ Structure.name structure @ '' from database by pk'',
          name = methodName,
          iParams = iPar,
          oParams = ''element *'' @ packageName structure @ ''.'' @ Structure.name structure @ '', err error'',
          body = generateQueryRow methodName sqlRequest whereValue scanString\<rparr>)\<close>

subsection \<open>Delete\<close>

text \<open>The loop of \<^verbatim>\<open>generateDelete\<close>; its state is
  \<open>(iParams, whereValue, whereString, index)\<close>.\<close>

fun deleteLoop :: "Field list \<Rightarrow> string \<times> string \<times> string \<times> nat \<Rightarrow> string \<times> string \<times> string \<times> nat" where
  "deleteLoop [] st = st"
| "deleteLoop (field # rest) (iPar, whereValue, whereString, index) =
     (if tagValue field ''primary'' = ''true''
      then deleteLoop rest
        (iPar @ Name field @ '' '' @ Type field @ '', '',
         whereValue @ Name field @ '', '',
         whereString @ tagValue field ''column'' @ '' = $'' @ Itoa index @ '' AND '',
         index + 1)
      else deleteLoop rest (iPar, whereValue, whereString, index))"

definition generateDelete :: "Structure \<Rightarrow> Method" where
  \<open>generateDelete structure =
     (let methodName = Structure.name structure @ ''Delete'';
          (iPar, whereValue, whereString, index) =
             deleteLoop (fields_list structure) (''ctx context.Context, '', [], [], 1);
          iPar = TrimRight iPar '', '';
          whereString = TrimRight whereString ''AND '';
          whereValue = TrimRight whereValue '', '';
          sqlRequest = ''"DELETE FROM '' @ tableName structure @ '' WHERE ('' @ whereString @ '')"''
      in \<lparr>comment = ''// '' @ methodName @ '' delete '' @ Structure.name structure @ '' from database by pk'',
          name = methodName,
          iParams = iPar,
          oParams = ''err error'',
          body = generateExec methodName sqlRequest whereValue\<rparr>)\<close>

subsection \<open>Update\<close>

text \<open>The loop of \<^verbatim>\<open>generateUpdate\<close>; its state is
  \<open>(whereString, paramsString, valueString, index)\<close>. The counter goes up once for
  every field, primary or not.\<close>

fun updateLoop :: "Field list \<Rightarrow> string \<times> string \<times> string \<times> nat \<Rightarrow> string \<times> string \<times> string \<times> nat" where
  "updateLoop [] st = st"
| "updateLoop (field # rest) (whereString, paramsString, valueString, index) =
     (if tagValue field ''primary'' = ''true''
      then updateLoop rest
        (whereString @ tagValue field ''column'' @ '' = $'' @ Itoa index @ '' AND '',
         paramsString,
         valueString @ ''data.'' @ Name field @ '', '',
         index + 1)
      else updateLoop rest
        (whereString,
         paramsString @ tagValue field ''column'' @ '' = $'' @ Itoa index @ '', '',
         valueString @ ''data.'' @ Name field @ '', '',
         index + 1))"

definition generateUpdate :: "Structure \<Rightarrow> Method" where
  \<open>generateUpdate structure =
     (let methodName = Structure.name structure @ ''Update'';
          (whereString, paramsString, valueString, index) =
             updateLoop (fields_list structure) ([], [], [], 1);
          whereString = TrimRight whereString ''AND '';
          paramsString = TrimRight paramsString '', '';
          valueString = TrimRight valueString '', '';
          sqlRequest = ''"UPDATE '' @ tableName structure @ '' SET ('' @ paramsString
                         @ '') WHERE ('' @ whereString @ '')"''
      in \<lparr>comment = ''// '' @ methodName @ '' update '' @ Structure.name structure @ '' in database by pk'',
          name = methodName,
          iParams = ''ctx context.Context, data *'' @ packageName structure @ ''.'' @ Structure.name structure,
          oParams = ''err error'',
          body = generateExec methodName sqlRequest valueString\<rparr>)\<close>

section \<open>Metadata normalizer\<close>

text \<open>The slice \<^verbatim>\<open>tagsArr\<close> of one field: nil (length 0) without a tag, else the
  tag text with one trailing space dropped, every backtick and every double quote deleted
  and every colon turned into a space, split at each single space.\<close>

definition tagsArrOf :: "string option \<Rightarrow> string list" where
  "tagsArrOf tag =
     (case tag of
        None \<Rightarrow> []
      | Some a \<Rightarrow>
          (let a = TrimSuffix a '' '';
               a = ReplaceAll a (CHR 0x60) [];
               a = ReplaceAll a (CHR 0x22) [];
               a = ReplaceAll a (CHR '':'') '' ''
           in Split a (CHR '' '')))"

text \<open>The loop \<^verbatim>\<open>for j := 0; j < len(tagsArr); j += 2\<close>, on the part of the slice
  from position \<open>j\<close> on. With one token left, \<^verbatim>\<open>tagsArr[j+1]\<close> is out of range and
  the Go runtime panics.\<close>

fun tagLoop :: "string list \<Rightarrow> (string \<rightharpoonup> string) \<Rightarrow> error + (string \<rightharpoonup> string)" where
  "tagLoop [] tagMap = Inr tagMap"
| "tagLoop [k] tagMap = Inl IndexOutOfRange"
| "tagLoop (k # v # rest) tagMap = tagLoop rest (tagMap(k \<mapsto> v))"

definition tagMapOf :: "string option \<Rightarrow> error + (string \<rightharpoonup> string)" where
  "tagMapOf tag = tagLoop (tagsArrOf tag) Map.empty"

text \<open>The type name: an identifier as it is, a selector \<open>X.Sel\<close> on an identifier as
  \<open>X.Sel\<close>; every other shape fails a type assertion.\<close>

definition fieldTypeOf :: "Expr \<Rightarrow> error + string" where
  "fieldTypeOf t =
     (case t of
        Ident n \<Rightarrow> Inr n
      | SelectorExpr x sel \<Rightarrow>
          (case x of Ident xn \<Rightarrow> Inr (xn @ ''.'' @ sel) | _ \<Rightarrow> Inl TypeAssertion)
      | _ \<Rightarrow> Inl TypeAssertion)"

text \<open>One pass of the loop of \<^verbatim>\<open>getStructure\<close>: the tag map, then the type name, then
  \<^verbatim>\<open>v.Names[0]\<close>, which is out of range for an embedded field.\<close>

definition getField :: "ast_Field \<Rightarrow> error + Field" where
  "getField v =
     (case tagMapOf (Tag v) of
        Inl e \<Rightarrow> Inl e
      | Inr tagMap \<Rightarrow>
          (case fieldTypeOf (ast_Field.Type v) of
             Inl e \<Rightarrow> Inl e
           | Inr fieldType \<Rightarrow>
               (case Names v of
                  [] \<Rightarrow> Inl IndexOutOfRange
                | n # _ \<Rightarrow> Inr \<lparr>Name = n, Type = fieldType, tags = tagMap\<rparr>)))"

fun getFields :: "ast_Field list \<Rightarrow> error + Field list" where
  "getFields [] = Inr []"
| "getFields (v # rest) =
     (case getField v of
        Inl e \<Rightarrow> Inl e
      | Inr f \<Rightarrow> (case getFields rest of Inl e \<Rightarrow> Inl e | Inr fs \<Rightarrow> Inr (f # fs)))"

definition getStructure :: "string \<Rightarrow> ast_TypeSpec \<Rightarrow> error + Structure" where
  "getStructure pkgName typeSpec =
     (case ast_TypeSpec.Type typeSpec of
        NotStructType _ \<Rightarrow> Inl TypeAssertion
      | StructType list \<Rightarrow>
          (case getFields list of
             Inl e \<Rightarrow> Inl e
           | Inr structFields \<Rightarrow>
               Inr \<lparr>packageName = pkgName, tableName = ''testTable'',
                    name = ast_TypeSpec.Name typeSpec, fields_list = structFields\<rparr>))"

section \<open>File renderer\<close>

record Generator =
  filePath :: string
  header :: string
  imports_list :: "string list"
  "structure" :: Structure
  methods :: "Method list"
  data :: string

text \<open>The file system as far as the generator touches it: whether a path can be written
  (its directory exists and permits it), and what each file holds.
  \<^verbatim>\<open>os.WriteFile\<close> creates the file or truncates it, then writes.\<close>

record FileSystem =
  writable :: "string \<Rightarrow> bool"
  contents :: "string \<rightharpoonup> string"

definition WriteFile :: "string \<Rightarrow> string \<Rightarrow> FileSystem \<Rightarrow> error option \<times> FileSystem" where
  "WriteFile path bytes fs =
     (if writable fs path then (None, fs\<lparr>contents := (contents fs)(path \<mapsto> bytes)\<rparr>)
      else (Some WriteFailed, fs))"

definition header :: string where
  "header = ''// code generated automatically\<newline>''
     @ ''// can be edited by hand if needed\<newline>''
     @ ''\<newline>''
     @ ''// Package repository contains the repository layer of the application.\<newline>''
     @ ''// generate this file by running: go generate repository_generator -path ''
     @ [CHR 0x27] @ ''path to file holding struct'' @ [CHR 0x27] @ '' -entity ''
     @ [CHR 0x27] @ ''name of struct'' @ [CHR 0x27] @ ''\<newline>''
     @ ''package repository''"

definition AddHeader :: "Generator \<Rightarrow> string \<Rightarrow> Generator" where
  "AddHeader g h = g\<lparr>header := h\<rparr>"

definition AddImport :: "Generator \<Rightarrow> string \<Rightarrow> Generator" where
  "AddImport g pkgName = g\<lparr>imports_list := imports_list g @ [pkgName]\<rparr>"

definition AddMethod :: "Generator \<Rightarrow> Method \<Rightarrow> Generator" where
  "AddMethod g method = g\<lparr>methods := methods g @ [method]\<rparr>"

text \<open>\<^verbatim>\<open>g.data.WriteString(s)\<close> appends to the buffer.\<close>

definition WriteString :: "Generator \<Rightarrow> string \<Rightarrow> Generator" where
  "WriteString g s = g\<lparr>data := data g @ s\<rparr>"

fun writeImports :: "string list \<Rightarrow> Generator \<Rightarrow> Generator" where
  "writeImports [] g = g"
| "writeImports (importName # rest) g =
     writeImports rest (WriteString g ([CHR 0x09, CHR 0x22] @ importName @ [CHR 0x22] @ ''\<newline>''))"

fun writeSignatures :: "Method list \<Rightarrow> Generator \<Rightarrow> Generator" where
  "writeSignatures [] g = g"
| "writeSignatures (method # rest) g =
     writeSignatures rest
       (WriteString g ([CHR 0x09] @ name method @ ''('' @ iParams method @ '') (''
          @ oParams method @ '')\<newline>''))"

fun writeMethods :: "Method list \<Rightarrow> Generator \<Rightarrow> Generator" where
  "writeMethods [] g = g"
| "writeMethods (method # rest) g =
     writeMethods rest
       (let g = WriteString g (comment method @ ''\<newline>'');
            g = WriteString g (''func (p *PostgresRepository) '' @ name method @ ''(''
                  @ iParams method @ '') ('' @ oParams method @ ''){\<newline>'');
            g = WriteString g (body method @ ''\<newline>'')
        in WriteString g ''}\<newline>\<newline>'')"

definition GenerateFile :: "Generator \<Rightarrow> FileSystem \<Rightarrow> error option \<times> Generator \<times> FileSystem" where
  "GenerateFile g0 fs =
     (let g = WriteString g0 (Generator.header g0);
          g = WriteString g ''\<newline>'';
          g = WriteString g ''\<newline>'';
          g = WriteString g ''import (\<newline>'';
          g = writeImports (imports_list g) g;
          g = WriteString g '')\<newline>'';
          g = WriteString g ''\<newline>'';
          g = WriteString g (''// '' @ Structure.name (structure g)
                @ ''Manager interface to interact with database\<newline>'');
          g = WriteString g (''type '' @ Structure.name (structure g) @ ''Manager interface {\<newline>'');
          g = writeSignatures (methods g) g;
          g = WriteString g ''}\<newline>'';
          g = WriteString g ''\<newline>'';
          g = writeMethods (methods g) g;
          (err, fs') = WriteFile (filePath g) (data g) fs
      in (err, g, fs'))"

definition Generate :: "Structure \<Rightarrow> FileSystem \<Rightarrow> error option \<times> FileSystem" where
  "Generate s fs =
     (let generator = \<lparr>filePath = ''repository/'' @ Structure.name s @ ''_repository.go'',
                        header = [], imports_list = [], structure = s, methods = [], data = []\<rparr>;
          generator = AddHeader generator header;
          generator = AddImport generator ''context'';
          generator = AddImport generator ''fmt'';
          createMethod = generateCreate s;
          generator = AddMethod generator createMethod;
          selectMethod = generateSelect s;
          generator = AddMethod generator selectMethod;
          updateMethod = generateUpdate s;
          generator = AddMethod generator updateMethod;
          deleteMethod = generateDelete s;
          generator = AddMethod generator deleteMethod;
          (err, g, fs') = GenerateFile generator fs
      in (err, fs'))"

section \<open>Notions the properties are stated with\<close>

text \<open>\<^verbatim>\<open>strings.Join\<close>: the pieces with the separator between neighbours. The generator
  does not call it; it says what a separated list without its trailing separator is.\<close>

fun Join :: "string list \<Rightarrow> string \<Rightarrow> string" where
  "Join [] sep = []"
| "Join [x] sep = x"
| "Join (x # y # ys) sep = x @ sep @ Join (y # ys) sep"

text \<open>A field is part of the primary key when its tag \<open>primary\<close> is \<open>true\<close>.\<close>

definition isPrimary :: "Field \<Rightarrow> bool" where
  "isPrimary f \<longleftrightarrow> tagValue f ''primary'' = ''true''"

text \<open>The entries of a list with their positions, counted from 1.\<close>

definition numbered :: "'a list \<Rightarrow> ('a \<times> nat) list" where
  "numbered xs = zip xs [1..<Suc (length xs)]"

text \<open>The predicate \<open>column = $i\<close> of a field and a placeholder number.\<close>

definition eqTerm :: "Field \<times> nat \<Rightarrow> string" where
  "eqTerm p = tagValue (fst p) ''column'' @ '' = $'' @ Itoa (snd p)"

definition placeholder :: "nat \<Rightarrow> string" where
  "placeholder i = ''$'' @ Itoa i"

text \<open>A text that is not empty and does not end in a comma or a space, as every Go
  identifier and every type name \<open>T\<close> or \<open>pkg.T\<close> is.\<close>

definition noTrailingSep :: "string \<Rightarrow> bool" where
  "noTrailingSep s \<longleftrightarrow> s \<noteq> [] \<and> last s \<noteq> CHR '','' \<and> last s \<noteq> CHR '' ''"

text \<open>The numbered fields that \<^verbatim>\<open>generateUpdate\<close> puts into the SET clause (not
  primary) and into the WHERE clause (primary).\<close>

definition setPart :: "Field list \<Rightarrow> (Field \<times> nat) list" where
  "setPart fs = filter (\<lambda>q. \<not> isPrimary (fst q)) (numbered fs)"

definition wherePart :: "Field list \<Rightarrow> (Field \<times> nat) list" where
  "wherePart fs = filter (\<lambda>q. isPrimary (fst q)) (numbered fs)"

text \<open>The scenario of the specification: the structure \<open>User\<close> with the key \<open>ID\<close>
  and the column \<open>Name\<close>, in a package \<open>pkg\<close>.\<close>

definition userStructure :: "string \<Rightarrow> Structure" where
  "userStructure pkg =
     \<lparr>packageName = pkg, tableName = ''testTable'', name = ''User'',
      fields_list =
        [\<lparr>Name = ''ID'', Type = ''int64'', tags = [''column'' \<mapsto> ''id'', ''primary'' \<mapsto> ''true'']\<rparr>,
         \<lparr>Name = ''Name'', Type = ''string'', tags = [''column'' \<mapsto> ''name'']\<rparr>]\<rparr>"

text \<open>The parts of the body that \<^verbatim>\<open>generateExec\<close> emits: the call, the branch on
  the driver's error, the branch on zero rows.\<close>

definition execCall :: "string \<Rightarrow> string \<Rightarrow> string" where
  "execCall sql vals = CHR 0x09 # ''ctg, err := p.db.Exec(ctx, '' @ sql @ '', '' @ vals @ '')\<newline>''"

definition driverErrorBranch :: "string \<Rightarrow> string" where
  \<open>driverErrorBranch m =
     CHR 0x09 # ''if err != nil {\<newline>''
     @ [CHR 0x09, CHR 0x09] @ ''return fmt.Errorf("'' @ m @ '' error: %w ", err)\<newline>''
     @ CHR 0x09 # ''}\<newline>''\<close>

definition noRowsBranch :: "string \<Rightarrow> string" where
  \<open>noRowsBranch m =
     CHR 0x09 # ''if ctg.RowsAffected() == 0 {\<newline>''
     @ [CHR 0x09, CHR 0x09] @ ''return fmt.Errorf("'' @ m @ '' error: no rows affected")\<newline>''
     @ CHR 0x09 # ''}\<newline>\<newline>''\<close>

text \<open>A structure without a primary key.\<close>

definition noteStructure :: Structure where
  "noteStructure =
     \<lparr>packageName = ''model'', tableName = ''testTable'', name = ''Note'',
      fields_list =
        [\<lparr>Name = ''Text'', Type = ''string'', tags = [''column'' \<mapsto> ''text'', ''primary'' \<mapsto> ''false'']\<rparr>,
         \<lparr>Name = ''Seen'', Type = ''time.Time'', tags = [''column'' \<mapsto> ''seen'']\<rparr>]\<rparr>"

text \<open>A field with the tag map of the two pairs \<open>column\<close> to \<open>id\<close> and \<open>primary\<close> to
  \<open>true\<close>.\<close>

definition keyField :: "string \<Rightarrow> string \<Rightarrow> Field" where
  "keyField n t = \<lparr>Name = n, Type = t, tags = [''column'' \<mapsto> ''id'', ''primary'' \<mapsto> ''true'']\<rparr>"

text \<open>The structure \<open>User\<close> whose last field has no tag.\<close>

definition untaggedLastStructure :: Structure where
  "untaggedLastStructure =
     \<lparr>packageName = ''model'', tableName = ''testTable'', name = ''User'',
      fields_list =
        [\<lparr>Name = ''ID'', Type = ''int64'', tags = [''column'' \<mapsto> ''id'', ''primary'' \<mapsto> ''true'']\<rparr>,
         \<lparr>Name = ''Name'', Type = ''string'', tags = Map.empty\<rparr>]\<rparr>"

subsection \<open>The normalizer as the specification words it\<close>

text \<open>
  The algorithm as the specification words it, to be compared with \<open>tagMapOf\<close>, which
  is the code: ``strips the surrounding quote/backtick punctuation, replaces the \<open>:\<close> separator and
  the \<open>"\<close> delimiters with a single space, and splits on whitespace, producing \<open>2n\<close> tokens
  that are consumed pairwise''. The result is \<open>None\<close> where the tokens are odd in number,
  about which the words say nothing.
\<close>

definition isQuoteMark :: "char \<Rightarrow> bool" where
  "isQuoteMark c \<longleftrightarrow> c = CHR 0x60 \<or> c = CHR 0x22"

definition stripSurrounding :: "string \<Rightarrow> string" where
  "stripSurrounding a =
     (let a = (case a of [] \<Rightarrow> [] | c # cs \<Rightarrow> if isQuoteMark c then cs else c # cs)
      in if a \<noteq> [] \<and> isQuoteMark (last a) then butlast a else a)"

definition isWhitespace :: "char \<Rightarrow> bool" where
  "isWhitespace c \<longleftrightarrow> c \<in> set [CHR 0x20, CHR 0x09, CHR 0x0A, CHR 0x0B, CHR 0x0C, CHR 0x0D]"

fun splitWhitespace :: "string \<Rightarrow> string \<Rightarrow> string list" where
  "splitWhitespace [] cur = (if cur = [] then [] else [cur])"
| "splitWhitespace (c # cs) cur =
     (if isWhitespace c then (if cur = [] then splitWhitespace cs [] else cur # splitWhitespace cs [])
      else splitWhitespace cs (cur @ [c]))"

fun consumePairs :: "string list \<Rightarrow> (string \<rightharpoonup> string) \<Rightarrow> (string \<rightharpoonup> string) option" where
  "consumePairs [] m = Some m"
| "consumePairs [k] m = None"
| "consumePairs (k # v # rest) m = consumePairs rest (m(k \<mapsto> v))"

definition specTagMap :: "string option \<Rightarrow> (string \<rightharpoonup> string) option" where
  "specTagMap tag =
     (case tag of
        None \<Rightarrow> Some Map.empty
      | Some a \<Rightarrow>
          consumePairs
            (splitWhitespace (ReplaceAll (ReplaceAll (stripSurrounding a) (CHR '':'') '' '') (CHR 0x22) '' '') [])
            Map.empty)"

subsection \<open>Token pairs and well-formed tag literals\<close>

text \<open>The tokens two by two: \<open>(token[2k], token[2k+1])\<close>.\<close>

fun pairs :: "string list \<Rightarrow> (string \<times> string) list" where
  "pairs (k # v # rest) = (k, v) # pairs rest"
| "pairs _ = []"

text \<open>A key or value without a space, colon, double quote or backtick, and the tag
  literal of a list of such pairs: \<open>key:"value"\<close>, single spaces between the pairs,
  backticks around.\<close>

definition cleanToken :: "string \<Rightarrow> bool" where
  "cleanToken s \<longleftrightarrow> set s \<inter> {CHR '' '', CHR '':'', CHR 0x22, CHR 0x60} = {}"

definition renderPair :: "string \<times> string \<Rightarrow> string" where
  "renderPair kv = fst kv @ [CHR '':'', CHR 0x22] @ snd kv @ [CHR 0x22]"

definition renderTag :: "(string \<times> string) list \<Rightarrow> string" where
  "renderTag kvs = [CHR 0x60] @ Join (map renderPair kvs) '' '' @ [CHR 0x60]"

text \<open>A structure whose only field has a tag value with a space in it.\<close>

definition spacedTagSpec :: ast_TypeSpec where
  \<open>spacedTagSpec =
     \<lparr>ast_TypeSpec.Name = ''User'',
      ast_TypeSpec.Type =
        StructType [\<lparr>Names = [''ID''], ast_Field.Type = Ident ''int64'',
                     Tag = Some ''`column:"user id"`''\<rparr>]\<rparr>\<close>

subsection \<open>The text of the file\<close>

text \<open>The lines the renderer writes for an import, for a method in the interface and for
  a method's implementation; the whole file of a structure; the path it is written to.\<close>

definition importLine :: "string \<Rightarrow> string" where
  "importLine importName = [CHR 0x09, CHR 0x22] @ importName @ [CHR 0x22] @ ''\<newline>''"

definition signatureLine :: "Method \<Rightarrow> string" where
  "signatureLine m = [CHR 0x09] @ name m @ ''('' @ iParams m @ '') ('' @ oParams m @ '')\<newline>''"

definition methodText :: "Method \<Rightarrow> string" where
  "methodText m =
     comment m @ ''\<newline>''
     @ ''func (p *PostgresRepository) '' @ name m @ ''('' @ iParams m @ '') ('' @ oParams m @ ''){\<newline>''
     @ body m @ ''\<newline>''
     @ ''}\<newline>\<newline>''"

definition fileText :: "Structure \<Rightarrow> string" where
  "fileText s =
     header @ ''\<newline>\<newline>''
     @ ''import (\<newline>'' @ importLine ''context'' @ importLine ''fmt'' @ '')\<newline>\<newline>''
     @ ''// '' @ Structure.name s @ ''Manager interface to interact with database\<newline>''
     @ ''type '' @ Structure.name s @ ''Manager interface {\<newline>''
     @ concat (map signatureLine [generateCreate s, generateSelect s, generateUpdate s, generateDelete s])
     @ ''}\<newline>\<newline>''
     @ concat (map methodText [generateCreate s, generateSelect s, generateUpdate s, generateDelete s])"

definition targetPath :: "Structure \<Rightarrow> string" where
  "targetPath s = ''repository/'' @ Structure.name s @ ''_repository.go''"

text \<open>A structure whose only field has two tag values with a space in them.\<close>

definition shiftedTagSpec :: ast_TypeSpec where
  \<open>shiftedTagSpec =
     \<lparr>ast_TypeSpec.Name = ''Note'',
      ast_TypeSpec.Type =
        StructType [\<lparr>Names = [''Text''], ast_Field.Type = Ident ''string'',
                     Tag = Some ''`note:"a b" column:"my id"`''\<rparr>]\<rparr>\<close>

subsection \<open>Names as the parser gives them\<close>

text \<open>What the properties need of a Go identifier: it is not empty and holds no comma and
  no space. The identifiers of a type expression are the ones its name is made of.\<close>

definition identifierLike :: "string \<Rightarrow> bool" where
  "identifierLike s \<longleftrightarrow> s \<noteq> [] \<and> CHR '','' \<notin> set s \<and> CHR '' '' \<notin> set s"

fun identsOf :: "Expr \<Rightarrow> string list" where
  "identsOf (Ident n) = [n]"
| "identsOf (SelectorExpr x sel) = identsOf x @ [sel]"
| "identsOf (StarExpr x) = identsOf x"
| "identsOf (ArrayType x) = identsOf x"

text \<open>The declaration of the scenario's structure \<open>User\<close>, with its tag literals.\<close>

definition userTypeSpec :: ast_TypeSpec where
  \<open>userTypeSpec =
     \<lparr>ast_TypeSpec.Name = ''User'',
      ast_TypeSpec.Type =
        StructType
          [\<lparr>Names = [''ID''], ast_Field.Type = Ident ''int64'',
             Tag = Some ''`column:"id" primary:"true"`''\<rparr>,
           \<lparr>Names = [''Name''], ast_Field.Type = Ident ''string'',
             Tag = Some ''`column:"name"`''\<rparr>]\<rparr>\<close>

text \<open>The declaration of the structure \<open>User\<close> whose last field has no tag.\<close>

definition untaggedLastTypeSpec :: ast_TypeSpec where
  \<open>untaggedLastTypeSpec =
     \<lparr>ast_TypeSpec.Name = ''User'',
      ast_TypeSpec.Type =
        StructType
          [\<lparr>Names = [''ID''], ast_Field.Type = Ident ''int64'',
             Tag = Some ''`column:"id" primary:"true"`''\<rparr>,
           \<lparr>Names = [''Name''], ast_Field.Type = Ident ''string'', Tag = None\<rparr>]\<rparr>\<close>

section \<open>Trimming, joining and the decimal numbers\<close>


lemma digitChar_in: "d < 10 \<Longrightarrow> digitChar d \<in> set ''0123456789''"
  unfolding digitChar_def by (rule nth_mem) simp

lemma Itoa_not_Nil: "Itoa n \<noteq> []"
  by (subst Itoa.simps) simp

lemma last_Itoa: "last (Itoa n) \<in> set ''0123456789''"
proof (cases "n < 10")
  case True
  then show ?thesis using digitChar_in [of n] by (subst Itoa.simps) simp
next
  case False
  have "n mod 10 < 10" by simp
  then show ?thesis using False digitChar_in [of "n mod 10"] by (subst Itoa.simps) simp
qed

lemma TrimRight_Nil: "TrimRight [] cs = []"
  by (simp add: TrimRight_def)

lemma TrimRight_append_cut: "set sep \<subseteq> set cs \<Longrightarrow> TrimRight (s @ sep) cs = TrimRight s cs"
  by (induction sep rule: rev_induct) (simp_all add: TrimRight_def)

lemma TrimRight_id: "s \<noteq> [] \<Longrightarrow> last s \<notin> set cs \<Longrightarrow> TrimRight s cs = s"
  by (cases s rule: rev_cases) (simp_all add: TrimRight_def)

lemma concat_sep_Join:
  "xs \<noteq> [] \<Longrightarrow> concat (map (\<lambda>x. x @ sep) xs) = Join xs sep @ sep"
  by (induction xs sep rule: Join.induct) simp_all

lemma Join_not_Nil: "xs \<noteq> [] \<Longrightarrow> last xs \<noteq> [] \<Longrightarrow> Join xs sep \<noteq> []"
  by (induction xs sep rule: Join.induct) simp_all

lemma last_Join: "xs \<noteq> [] \<Longrightarrow> last xs \<noteq> [] \<Longrightarrow> last (Join xs sep) = last (last xs)"
  by (induction xs sep rule: Join.induct) (simp_all add: Join_not_Nil)

lemma TrimRight_entries:
  assumes "xs \<noteq> [] \<Longrightarrow> last xs \<noteq> [] \<and> last (last xs) \<notin> set cs"
    and "set sep \<subseteq> set cs"
  shows "TrimRight (concat (map (\<lambda>x. x @ sep) xs)) cs = Join xs sep"
proof (cases "xs = []")
  case True
  then show ?thesis by (simp add: TrimRight_Nil)
next
  case False
  with assms(1) have l: "last xs \<noteq> []" "last (last xs) \<notin> set cs" by simp_all
  have "TrimRight (concat (map (\<lambda>x. x @ sep) xs)) cs = TrimRight (Join xs sep) cs"
    using False assms(2) by (simp add: concat_sep_Join TrimRight_append_cut)
  also have "\<dots> = Join xs sep"
    using False l by (intro TrimRight_id) (simp_all add: Join_not_Nil last_Join)
  finally show ?thesis .
qed

lemma TrimSuffix_append: "TrimSuffix (s @ sep) sep = s"
  by (simp add: TrimSuffix_def)

lemma TrimSuffix_entries:
  assumes "sep \<noteq> []"
  shows "TrimSuffix (concat (map (\<lambda>x. x @ sep) xs)) sep = Join xs sep"
proof (cases "xs = []")
  case True
  then show ?thesis using assms by (simp add: TrimSuffix_def)
next
  case False
  then show ?thesis by (simp add: concat_sep_Join TrimSuffix_append)
qed


section \<open>The loops in closed form\<close>

lemma createLoop_eq:
  "createLoop fs (v, p, iv, i) =
     (v @ concat (map (\<lambda>x. x @ '', '') (map placeholder [i..<i + length fs])),
      p @ concat (map (\<lambda>x. x @ '', '') (map (\<lambda>f. tagValue f ''column'') fs)),
      iv @ concat (map (\<lambda>x. x @ '', '') (map (\<lambda>f. ''data.'' @ Name f) fs)),
      i + length fs)"
proof (induction fs arbitrary: v p iv i)
  case Nil
  then show ?case by simp
next
  case (Cons f fs)
  have "[i..<i + Suc n] = i # [Suc i..<Suc i + n]" for n
    by (simp add: upt_conv_Cons)
  then show ?case
    by (simp add: Cons.IH placeholder_def)
qed

lemma updateLoop_eq:
  "updateLoop fs (w, p, v, i) =
     (w @ concat (map (\<lambda>x. x @ '' AND '') (map eqTerm (filter (\<lambda>q. isPrimary (fst q)) (zip fs [i..<i + length fs])))),
      p @ concat (map (\<lambda>x. x @ '', '') (map eqTerm (filter (\<lambda>q. \<not> isPrimary (fst q)) (zip fs [i..<i + length fs])))),
      v @ concat (map (\<lambda>x. x @ '', '') (map (\<lambda>f. ''data.'' @ Name f) fs)),
      i + length fs)"
proof (induction fs arbitrary: w p v i)
  case Nil
  then show ?case by simp
next
  case (Cons f fs)
  have "[i..<i + Suc n] = i # [Suc i..<Suc i + n]" for n
    by (simp add: upt_conv_Cons)
  then show ?case
    by (simp add: Cons.IH isPrimary_def eqTerm_def)
qed

lemma selectLoop_eq:
  "selectLoop fs (ip, wv, ws, ps, sc, i) =
     (ip @ concat (map (\<lambda>x. x @ '', '') (map (\<lambda>f. Name f @ '' '' @ Type f) (filter isPrimary fs))),
      wv @ concat (map (\<lambda>x. x @ '', '') (map Name (filter isPrimary fs))),
      ws @ concat (map (\<lambda>x. x @ '' AND '')
             (map eqTerm (zip (filter isPrimary fs) [i..<i + length (filter isPrimary fs)]))),
      ps @ concat (map (\<lambda>x. x @ '', '') (map (\<lambda>f. tagValue f ''column'') fs)),
      sc @ concat (map (\<lambda>x. x @ '', '') (map (\<lambda>f. ''element.'' @ Name f) fs)),
      i + length (filter isPrimary fs))"
proof (induction fs arbitrary: ip wv ws ps sc i)
  case Nil
  then show ?case by simp
next
  case (Cons f fs)
  have "[i..<i + Suc n] = i # [Suc i..<Suc i + n]" for n
    by (simp add: upt_conv_Cons)
  then show ?case
    by (simp add: Cons.IH isPrimary_def eqTerm_def)
qed

lemma deleteLoop_eq:
  "deleteLoop fs (ip, wv, ws, i) =
     (ip @ concat (map (\<lambda>x. x @ '', '') (map (\<lambda>f. Name f @ '' '' @ Type f) (filter isPrimary fs))),
      wv @ concat (map (\<lambda>x. x @ '', '') (map Name (filter isPrimary fs))),
      ws @ concat (map (\<lambda>x. x @ '' AND '')
             (map eqTerm (zip (filter isPrimary fs) [i..<i + length (filter isPrimary fs)]))),
      i + length (filter isPrimary fs))"
proof (induction fs arbitrary: ip wv ws i)
  case Nil
  then show ?case by simp
next
  case (Cons f fs)
  have "[i..<i + Suc n] = i # [Suc i..<Suc i + n]" for n
    by (simp add: upt_conv_Cons)
  then show ?case
    by (simp add: Cons.IH isPrimary_def eqTerm_def)
qed


section \<open>Trimming the separated lists\<close>

lemma last_eqTerm: "eqTerm q \<noteq> [] \<and> last (eqTerm q) \<in> set ''0123456789''"
  by (simp add: eqTerm_def Itoa_not_Nil last_Itoa del: set_simps)

lemma last_placeholder: "placeholder i \<noteq> [] \<and> last (placeholder i) \<in> set ''0123456789''"
  by (simp add: placeholder_def Itoa_not_Nil last_Itoa del: set_simps)

lemma digit_not_sep: "c \<in> set ''0123456789'' \<Longrightarrow> c \<notin> set '', '' \<and> c \<notin> set ''AND ''"
  by auto

lemma TrimRight_terms:
  assumes "\<And>x. x \<in> set xs \<Longrightarrow> g x \<noteq> [] \<and> last (g x) \<notin> set cs" and "set sep \<subseteq> set cs"
  shows "TrimRight (concat (map (\<lambda>x. x @ sep) (map g xs))) cs = Join (map g xs) sep"
proof (rule TrimRight_entries)
  assume "map g xs \<noteq> []"
  then have "xs \<noteq> []" by simp
  then have "last xs \<in> set xs" by simp
  from assms(1) [OF this] \<open>xs \<noteq> []\<close>
  show "last (map g xs) \<noteq> [] \<and> last (last (map g xs)) \<notin> set cs"
    by (simp add: last_map)
next
  show "set sep \<subseteq> set cs" by (rule assms(2))
qed

lemma trim_eqTerms_AND:
  "TrimRight (concat (map (\<lambda>x. x @ '' AND '') (map eqTerm qs))) ''AND '' = Join (map eqTerm qs) '' AND ''"
proof (rule TrimRight_terms)
  fix x
  show "eqTerm x \<noteq> [] \<and> last (eqTerm x) \<notin> set ''AND ''"
    using last_eqTerm [of x] digit_not_sep [of "last (eqTerm x)"] by blast
next
  show "set '' AND '' \<subseteq> set ''AND ''" by simp
qed

lemma trim_eqTerms_comma:
  "TrimRight (concat (map (\<lambda>x. x @ '', '') (map eqTerm qs))) '', '' = Join (map eqTerm qs) '', ''"
proof (rule TrimRight_terms)
  fix x
  show "eqTerm x \<noteq> [] \<and> last (eqTerm x) \<notin> set '', ''"
    using last_eqTerm [of x] digit_not_sep [of "last (eqTerm x)"] by blast
next
  show "set '', '' \<subseteq> set '', ''" by simp
qed

lemma trim_placeholders:
  "TrimRight (concat (map (\<lambda>x. x @ '', '') (map placeholder ns))) '', '' = Join (map placeholder ns) '', ''"
proof (rule TrimRight_terms)
  fix x
  show "placeholder x \<noteq> [] \<and> last (placeholder x) \<notin> set '', ''"
    using last_placeholder [of x] digit_not_sep [of "last (placeholder x)"] by blast
next
  show "set '', '' \<subseteq> set '', ''" by simp
qed

lemma noTrailingSep_append: "noTrailingSep s \<Longrightarrow> noTrailingSep (p @ s)"
  by (simp add: noTrailingSep_def)

lemma noTrailingSep_last: "noTrailingSep s \<Longrightarrow> s \<noteq> [] \<and> last s \<notin> set '', ''"
  by (simp add: noTrailingSep_def)

lemma trim_names:
  assumes "\<And>f. f \<in> set fs \<Longrightarrow> noTrailingSep (g f)"
  shows "TrimRight (concat (map (\<lambda>x. x @ '', '') (map g fs))) '', '' = Join (map g fs) '', ''"
proof (rule TrimRight_terms)
  fix x assume "x \<in> set fs"
  then show "g x \<noteq> [] \<and> last (g x) \<notin> set '', ''"
    using assms noTrailingSep_last by blast
next
  show "set '', '' \<subseteq> set '', ''" by simp
qed

lemma numbered_from_1: "zip fs [1..<1 + length fs] = numbered fs"
  by (simp add: numbered_def)

lemma generateUpdate_body:
  assumes "\<And>f. f \<in> set (fields_list s) \<Longrightarrow> noTrailingSep (Name f)"
  shows \<open>body (generateUpdate s) =
     generateExec (Structure.name s @ ''Update'')
       (''"UPDATE '' @ tableName s @ '' SET ('' @ Join (map eqTerm (setPart (fields_list s))) '', ''
          @ '') WHERE ('' @ Join (map eqTerm (wherePart (fields_list s))) '' AND '' @ '')"'')
       (Join (map (\<lambda>f. ''data.'' @ Name f) (fields_list s)) '', '')\<close>
proof -
  have v: "TrimRight (concat (map (\<lambda>x. x @ '', '') (map (\<lambda>f. ''data.'' @ Name f) (fields_list s)))) '', ''
      = Join (map (\<lambda>f. ''data.'' @ Name f) (fields_list s)) '', ''"
    by (rule trim_names) (rule noTrailingSep_append, rule assms)
  show ?thesis
    unfolding generateUpdate_def updateLoop_eq Let_def prod.case append_Nil
      trim_eqTerms_AND trim_eqTerms_comma v numbered_from_1 setPart_def wherePart_def
    by simp
qed

section \<open>Closed forms of the synthesizers\<close>


lemma generateCreate_body:
  assumes "fields_list s \<noteq> [] \<Longrightarrow> noTrailingSep (tagValue (last (fields_list s)) ''column'')"
    and "\<And>f. f \<in> set (fields_list s) \<Longrightarrow> noTrailingSep (Name f)"
  shows \<open>body (generateCreate s) =
     generateExec (Structure.name s @ ''Create'')
       (''"INSERT INTO '' @ tableName s @ '' (''
          @ Join (map (\<lambda>f. tagValue f ''column'') (fields_list s)) '', ''
          @ '') VALUES ('' @ Join (map placeholder [1..<Suc (length (fields_list s))]) '', '' @ '')"'')
       (Join (map (\<lambda>f. ''data.'' @ Name f) (fields_list s)) '', '')\<close>
proof -
  have v: "TrimRight (concat (map (\<lambda>x. x @ '', '') (map (\<lambda>f. ''data.'' @ Name f) (fields_list s)))) '', ''
      = Join (map (\<lambda>f. ''data.'' @ Name f) (fields_list s)) '', ''"
    by (rule trim_names) (rule noTrailingSep_append, rule assms(2))
  have c: "TrimRight (concat (map (\<lambda>x. x @ '', '') (map (\<lambda>f. tagValue f ''column'') (fields_list s)))) '', ''
      = Join (map (\<lambda>f. tagValue f ''column'') (fields_list s)) '', ''"
  proof (rule TrimRight_entries)
    assume "map (\<lambda>f. tagValue f ''column'') (fields_list s) \<noteq> []"
    then have ne: "fields_list s \<noteq> []" by simp
    from noTrailingSep_last [OF assms(1) [OF ne]] ne
    show "last (map (\<lambda>f. tagValue f ''column'') (fields_list s)) \<noteq> [] \<and>
        last (last (map (\<lambda>f. tagValue f ''column'') (fields_list s))) \<notin> set '', ''"
      by (simp add: last_map)
  next
    show "set '', '' \<subseteq> set '', ''" by simp
  qed
  have u: "[1..<1 + length (fields_list s)] = [1..<Suc (length (fields_list s))]" by simp
  show ?thesis
    unfolding generateCreate_def createLoop_eq Let_def prod.case append_Nil
      trim_placeholders v c u
    by simp
qed

lemma trim_ctx:
  assumes "\<And>f. f \<in> set fs \<Longrightarrow> noTrailingSep (g f)"
  shows "TrimRight (''ctx context.Context, '' @ concat (map (\<lambda>x. x @ '', '') (map g fs))) '', ''
     = Join (''ctx context.Context'' # map g fs) '', ''"
proof -
  have "TrimRight (concat (map (\<lambda>x. x @ '', '') (''ctx context.Context'' # map g fs))) '', ''
     = Join (''ctx context.Context'' # map g fs) '', ''"
  proof (rule TrimRight_entries)
    show "last (''ctx context.Context'' # map g fs) \<noteq> [] \<and>
       last (last (''ctx context.Context'' # map g fs)) \<notin> set '', ''"
    proof (cases "fs = []")
      case True
      then show ?thesis by simp
    next
      case False
      then have "last fs \<in> set fs" by simp
      from noTrailingSep_last [OF assms [OF this]] False
      show ?thesis by (simp add: last_map)
    qed
  next
    show "set '', '' \<subseteq> set '', ''" by simp
  qed
  then show ?thesis by simp
qed

lemma numbered_primary: "zip (filter isPrimary fs) [1..<1 + length (filter isPrimary fs)] = numbered (filter isPrimary fs)"
  by (simp add: numbered_def)

lemma TrimSuffix_comma:
  "TrimSuffix (concat (map (\<lambda>x. x @ '', '') xs)) '', '' = Join xs '', ''"
  by (rule TrimSuffix_entries) simp

lemma generateSelect_closed:
  assumes "\<And>f. f \<in> set (fields_list s) \<Longrightarrow> isPrimary f \<Longrightarrow> noTrailingSep (Name f) \<and> noTrailingSep (Type f)"
  shows \<open>body (generateSelect s) =
     generateQueryRow (Structure.name s @ ''Select'')
       (''"SELECT ('' @ Join (map (\<lambda>f. tagValue f ''column'') (fields_list s)) '', ''
          @ '') FROM '' @ tableName s
          @ '' WHERE ('' @ Join (map eqTerm (numbered (filter isPrimary (fields_list s)))) '' AND '' @ '')"'')
       (Join (map Name (filter isPrimary (fields_list s))) '', '')
       (Join (map (\<lambda>f. ''element.'' @ Name f) (fields_list s)) '', '')\<close>
   and \<open>iParams (generateSelect s) =
     Join (''ctx context.Context'' # map (\<lambda>f. Name f @ '' '' @ Type f) (filter isPrimary (fields_list s))) '', ''\<close>
proof -
  have n: "TrimRight (concat (map (\<lambda>x. x @ '', '') (map Name (filter isPrimary (fields_list s))))) '', ''
      = Join (map Name (filter isPrimary (fields_list s))) '', ''"
    by (rule trim_names) (simp add: assms)
  have p: "TrimRight (''ctx context.Context, '' @ concat (map (\<lambda>x. x @ '', '')
        (map (\<lambda>f. Name f @ '' '' @ Type f) (filter isPrimary (fields_list s))))) '', ''
      = Join (''ctx context.Context'' # map (\<lambda>f. Name f @ '' '' @ Type f) (filter isPrimary (fields_list s))) '', ''"
  proof (rule trim_ctx)
    fix f assume "f \<in> set (filter isPrimary (fields_list s))"
    then have "noTrailingSep (Type f)" using assms by simp
    then have "noTrailingSep ('' '' @ Type f)" by (rule noTrailingSep_append)
    then show "noTrailingSep (Name f @ '' '' @ Type f)" by (rule noTrailingSep_append)
  qed
  show \<open>body (generateSelect s) =
     generateQueryRow (Structure.name s @ ''Select'')
       (''"SELECT ('' @ Join (map (\<lambda>f. tagValue f ''column'') (fields_list s)) '', ''
          @ '') FROM '' @ tableName s
          @ '' WHERE ('' @ Join (map eqTerm (numbered (filter isPrimary (fields_list s)))) '' AND '' @ '')"'')
       (Join (map Name (filter isPrimary (fields_list s))) '', '')
       (Join (map (\<lambda>f. ''element.'' @ Name f) (fields_list s)) '', '')\<close>
    unfolding generateSelect_def selectLoop_eq Let_def prod.case append_Nil
      trim_eqTerms_AND n TrimSuffix_comma numbered_primary
    by simp
  show \<open>iParams (generateSelect s) =
     Join (''ctx context.Context'' # map (\<lambda>f. Name f @ '' '' @ Type f) (filter isPrimary (fields_list s))) '', ''\<close>
    unfolding generateSelect_def selectLoop_eq Let_def prod.case p
    by simp
qed

lemma generateDelete_closed:
  assumes "\<And>f. f \<in> set (fields_list s) \<Longrightarrow> isPrimary f \<Longrightarrow> noTrailingSep (Name f) \<and> noTrailingSep (Type f)"
  shows \<open>body (generateDelete s) =
     generateExec (Structure.name s @ ''Delete'')
       (''"DELETE FROM '' @ tableName s
          @ '' WHERE ('' @ Join (map eqTerm (numbered (filter isPrimary (fields_list s)))) '' AND '' @ '')"'')
       (Join (map Name (filter isPrimary (fields_list s))) '', '')\<close>
   and \<open>iParams (generateDelete s) =
     Join (''ctx context.Context'' # map (\<lambda>f. Name f @ '' '' @ Type f) (filter isPrimary (fields_list s))) '', ''\<close>
proof -
  have n: "TrimRight (concat (map (\<lambda>x. x @ '', '') (map Name (filter isPrimary (fields_list s))))) '', ''
      = Join (map Name (filter isPrimary (fields_list s))) '', ''"
    by (rule trim_names) (simp add: assms)
  have p: "TrimRight (''ctx context.Context, '' @ concat (map (\<lambda>x. x @ '', '')
        (map (\<lambda>f. Name f @ '' '' @ Type f) (filter isPrimary (fields_list s))))) '', ''
      = Join (''ctx context.Context'' # map (\<lambda>f. Name f @ '' '' @ Type f) (filter isPrimary (fields_list s))) '', ''"
  proof (rule trim_ctx)
    fix f assume "f \<in> set (filter isPrimary (fields_list s))"
    then have "noTrailingSep (Type f)" using assms by simp
    then have "noTrailingSep ('' '' @ Type f)" by (rule noTrailingSep_append)
    then show "noTrailingSep (Name f @ '' '' @ Type f)" by (rule noTrailingSep_append)
  qed
  show \<open>body (generateDelete s) =
     generateExec (Structure.name s @ ''Delete'')
       (''"DELETE FROM '' @ tableName s
          @ '' WHERE ('' @ Join (map eqTerm (numbered (filter isPrimary (fields_list s)))) '' AND '' @ '')"'')
       (Join (map Name (filter isPrimary (fields_list s))) '', '')\<close>
    unfolding generateDelete_def deleteLoop_eq Let_def prod.case append_Nil
      trim_eqTerms_AND n numbered_primary
    by simp
  show \<open>iParams (generateDelete s) =
     Join (''ctx context.Context'' # map (\<lambda>f. Name f @ '' '' @ Type f) (filter isPrimary (fields_list s))) '', ''\<close>
    unfolding generateDelete_def deleteLoop_eq Let_def prod.case p
    by simp
qed

section \<open>Numbered fields and the two parts of Update\<close>

lemma numbered_snd: "map snd (numbered fs) = [1..<Suc (length fs)]"
  by (simp add: numbered_def del: upt_Suc)

lemma numbered_fst: "map fst (numbered fs) = fs"
  by (simp add: numbered_def del: upt_Suc)

lemma in_numbered:
  "(f, i) \<in> set (numbered fs) \<longleftrightarrow> 1 \<le> i \<and> i \<le> length fs \<and> fs ! (i - 1) = f"
proof
  assume "(f, i) \<in> set (numbered fs)"
  then obtain j where j: "j < length fs" "fs ! j = f" "[1..<Suc (length fs)] ! j = i"
    unfolding numbered_def set_zip by auto
  from j(1,3) have "i = Suc j" by (simp add: nth_upt del: upt_Suc)
  with j show "1 \<le> i \<and> i \<le> length fs \<and> fs ! (i - 1) = f" by simp
next
  assume a: "1 \<le> i \<and> i \<le> length fs \<and> fs ! (i - 1) = f"
  then have "i - 1 < length fs" by arith
  moreover from a have "[1..<Suc (length fs)] ! (i - 1) = i" by (simp add: nth_upt del: upt_Suc)
  ultimately show "(f, i) \<in> set (numbered fs)"
    unfolding numbered_def set_zip using a by auto
qed

lemma parts_union: "snd ` set (setPart fs) \<union> snd ` set (wherePart fs) = {1..length fs}"
proof -
  have "set (setPart fs) \<union> set (wherePart fs) = set (numbered fs)"
    by (auto simp: setPart_def wherePart_def)
  then have "snd ` set (setPart fs) \<union> snd ` set (wherePart fs) = set (map snd (numbered fs))"
    by (simp add: image_Un [symmetric])
  also have "\<dots> = {1..length fs}"
    unfolding numbered_snd by auto
  finally show ?thesis .
qed

lemma parts_disjoint: "snd ` set (setPart fs) \<inter> snd ` set (wherePart fs) = {}"
proof -
  have False if a: "(f, i) \<in> set (setPart fs)" and b: "(g, i) \<in> set (wherePart fs)" for f g i
  proof -
    from a have "(f, i) \<in> set (numbered fs)" "\<not> isPrimary f" by (simp_all add: setPart_def)
    moreover from b have "(g, i) \<in> set (numbered fs)" "isPrimary g" by (simp_all add: wherePart_def)
    ultimately show False by (auto simp: in_numbered)
  qed
  then show ?thesis by fastforce
qed

lemma parts_distinct: "distinct (map snd (setPart fs) @ map snd (wherePart fs))"
proof -
  have d: "distinct (map snd (numbered fs))" unfolding numbered_snd by simp
  have "distinct (map snd (setPart fs))" "distinct (map snd (wherePart fs))"
    unfolding setPart_def wherePart_def by (rule distinct_map_filter [OF d])+
  moreover have "set (map snd (setPart fs)) \<inter> set (map snd (wherePart fs)) = {}"
    using parts_disjoint [of fs] by simp
  ultimately show ?thesis by simp
qed

lemma parts_position:
  "q \<in> set (setPart fs) \<union> set (wherePart fs) \<Longrightarrow>
     1 \<le> snd q \<and> snd q \<le> length fs \<and> fs ! (snd q - 1) = fst q"
proof -
  assume "q \<in> set (setPart fs) \<union> set (wherePart fs)"
  then have "(fst q, snd q) \<in> set (numbered fs)" by (auto simp: setPart_def wherePart_def)
  then show ?thesis by (simp only: in_numbered)
qed

lemma not_primary_iff: "isPrimary f \<longleftrightarrow> tags f ''primary'' = Some ''true''"
  by (simp add: isPrimary_def tagValue_def split: option.splits)

lemma numbered_nth: "i < length fs \<Longrightarrow> numbered fs ! i = (fs ! i, Suc i)"
  by (simp add: numbered_def nth_upt del: upt_Suc)

lemma length_numbered: "length (numbered fs) = length fs"
  by (simp add: numbered_def del: upt_Suc)

lemma keyField_primary: "isPrimary (keyField n t)"
  by (simp add: isPrimary_def tagValue_def keyField_def)

lemma keyField_term: "eqTerm (keyField n t, j) = ''id = $'' @ Itoa j"
  by (simp add: eqTerm_def tagValue_def keyField_def)

section \<open>The tag loop and the tokens of a well-formed tag\<close>

lemma tagLoop_pairs: "even (length toks) \<Longrightarrow> tagLoop toks m = Inr (m ++ map_of (rev (pairs toks)))"
proof (induction toks arbitrary: m rule: pairs.induct)
  case (1 k v rest)
  have e: "m(k \<mapsto> v) ++ map_of (rev (pairs rest)) = m ++ map_of (rev (pairs (k # v # rest)))"
    by (rule ext) (simp add: map_add_def split: option.splits)
  from 1 have "tagLoop rest (m(k \<mapsto> v)) = Inr (m(k \<mapsto> v) ++ map_of (rev (pairs rest)))"
    by simp
  then have "tagLoop (k # v # rest) m = Inr (m(k \<mapsto> v) ++ map_of (rev (pairs rest)))"
    by (simp only: tagLoop.simps)
  then show ?case by (simp only: e)
qed simp_all

lemma tagLoop_odd: "odd (length toks) \<Longrightarrow> tagLoop toks m = Inl IndexOutOfRange"
  by (induction toks arbitrary: m rule: pairs.induct) simp_all

lemma length_pairs: "length (pairs toks) = length toks div 2"
  by (induction toks rule: pairs.induct) simp_all

lemma pairs_nth: "k < length toks div 2 \<Longrightarrow> pairs toks ! k = (toks ! (2 * k), toks ! (2 * k + 1))"
proof (induction toks arbitrary: k rule: pairs.induct)
  case (1 a b rest)
  then show ?case by (cases k) simp_all
qed simp_all

lemma pairs_concat: "pairs (concat (map (\<lambda>kv. [fst kv, snd kv]) kvs)) = kvs"
  by (induction kvs) simp_all

lemma length_concat_pairs: "even (length (concat (map (\<lambda>kv. [fst kv, snd kv]) kvs)))"
  by (induction kvs) simp_all

lemma ReplaceAll_append: "ReplaceAll (xs @ ys) c n = ReplaceAll xs c n @ ReplaceAll ys c n"
  by (induction xs) simp_all

lemma ReplaceAll_id: "c \<notin> set xs \<Longrightarrow> ReplaceAll xs c n = xs"
  by (induction xs) auto

lemma ReplaceAll_Join:
  "ReplaceAll (Join xs sep) c n = Join (map (\<lambda>x. ReplaceAll x c n) xs) (ReplaceAll sep c n)"
  by (induction xs sep rule: Join.induct) (simp_all add: ReplaceAll_append)

lemma TrimSuffix_other: "s \<noteq> [] \<Longrightarrow> last s \<noteq> c \<Longrightarrow> TrimSuffix s [c] = s"
  by (cases s rule: rev_cases) (simp_all add: TrimSuffix_def)

lemma Split_not_Nil: "Split s sep \<noteq> []"
  by (induction s) (simp_all split: list.splits)

lemma Split_clean: "sep \<notin> set x \<Longrightarrow> Split x sep = [x]"
  by (induction x) auto

lemma Split_append: "sep \<notin> set x \<Longrightarrow> Split (x @ sep # rest) sep = x # Split rest sep"
  by (induction x) auto

lemma Join_Cons: "xs \<noteq> [] \<Longrightarrow> Join (x # xs) sep = x @ sep @ Join xs sep"
  by (cases xs) simp_all

lemma Split_pairs:
  assumes "kvs \<noteq> []"
    and "\<And>kv. kv \<in> set kvs \<Longrightarrow> CHR '' '' \<notin> set (fst kv) \<and> CHR '' '' \<notin> set (snd kv)"
  shows "Split (Join (map (\<lambda>kv. fst kv @ '' '' @ snd kv) kvs) '' '') (CHR '' '')
     = concat (map (\<lambda>kv. [fst kv, snd kv]) kvs)"
  using assms
proof (induction kvs rule: list_nonempty_induct)
  case (single kv)
  then have "CHR '' '' \<notin> set (fst kv)" "CHR '' '' \<notin> set (snd kv)" by simp_all
  then show ?case by (simp add: Split_append Split_clean)
next
  case (cons kv kvs)
  then have c: "CHR '' '' \<notin> set (fst kv)" "CHR '' '' \<notin> set (snd kv)" by simp_all
  have ih: "Split (Join (map (\<lambda>kv. fst kv @ '' '' @ snd kv) kvs) '' '') (CHR '' '')
     = concat (map (\<lambda>kv. [fst kv, snd kv]) kvs)"
    using cons by simp
  have "Join (map (\<lambda>kv. fst kv @ '' '' @ snd kv) (kv # kvs)) '' ''
      = fst kv @ CHR '' '' # (snd kv @ CHR '' '' # Join (map (\<lambda>kv. fst kv @ '' '' @ snd kv) kvs) '' '')"
    using cons.hyps by (simp add: Join_Cons)
  then have "Split (Join (map (\<lambda>kv. fst kv @ '' '' @ snd kv) (kv # kvs)) '' '') (CHR '' '')
      = fst kv # snd kv # Split (Join (map (\<lambda>kv. fst kv @ '' '' @ snd kv) kvs) '' '') (CHR '' '')"
    by (simp only: Split_append [OF c(1)] Split_append [OF c(2)])
  with ih show ?case by simp
qed

lemma normalize_renderPair:
  assumes "cleanToken (fst kv)" and "cleanToken (snd kv)"
  shows "ReplaceAll (ReplaceAll (ReplaceAll (renderPair kv) (CHR 0x60) []) (CHR 0x22) []) (CHR '':'') '' ''
     = fst kv @ '' '' @ snd kv"
proof -
  from assms have k: "CHR 0x60 \<notin> set (fst kv)" "CHR 0x22 \<notin> set (fst kv)" "CHR '':'' \<notin> set (fst kv)"
    and v: "CHR 0x60 \<notin> set (snd kv)" "CHR 0x22 \<notin> set (snd kv)" "CHR '':'' \<notin> set (snd kv)"
    by (simp_all add: cleanToken_def)
  show ?thesis
    by (simp add: renderPair_def ReplaceAll_append ReplaceAll_id k v)
qed

lemma tagsArrOf_renderTag:
  assumes "kvs \<noteq> []"
    and "\<And>kv. kv \<in> set kvs \<Longrightarrow> cleanToken (fst kv) \<and> cleanToken (snd kv)"
  shows "tagsArrOf (Some (renderTag kvs)) = concat (map (\<lambda>kv. [fst kv, snd kv]) kvs)"
proof -
  have t: "TrimSuffix (renderTag kvs) '' '' = renderTag kvs"
    by (rule TrimSuffix_other) (simp_all add: renderTag_def)
  have m: "map (\<lambda>x. ReplaceAll (ReplaceAll (ReplaceAll (renderPair x) (CHR 0x60) []) (CHR 0x22) []) (CHR '':'') '' '') kvs
      = map (\<lambda>kv. fst kv @ '' '' @ snd kv) kvs"
    by (rule map_cong [OF refl]) (simp add: normalize_renderPair assms(2))
  have "ReplaceAll (ReplaceAll (ReplaceAll (renderTag kvs) (CHR 0x60) []) (CHR 0x22) []) (CHR '':'') '' ''
      = Join (map (\<lambda>kv. fst kv @ '' '' @ snd kv) kvs) '' ''"
    by (simp add: renderTag_def ReplaceAll_append ReplaceAll_Join o_def m)
  moreover have "Split (Join (map (\<lambda>kv. fst kv @ '' '' @ snd kv) kvs) '' '') (CHR '' '')
     = concat (map (\<lambda>kv. [fst kv, snd kv]) kvs)"
  proof (rule Split_pairs [OF assms(1)])
    fix kv assume "kv \<in> set kvs"
    from assms(2) [OF this] show "CHR '' '' \<notin> set (fst kv) \<and> CHR '' '' \<notin> set (snd kv)"
      by (simp add: cleanToken_def)
  qed
  ultimately show ?thesis
    by (simp add: tagsArrOf_def t Let_def)
qed

lemma tagMapOf_renderTag:
  assumes "kvs \<noteq> []"
    and "\<And>kv. kv \<in> set kvs \<Longrightarrow> cleanToken (fst kv) \<and> cleanToken (snd kv)"
  shows "tagMapOf (Some (renderTag kvs)) = Inr (map_of (rev kvs))"
proof -
  have a: "tagsArrOf (Some (renderTag kvs)) = concat (map (\<lambda>kv. [fst kv, snd kv]) kvs)"
    using assms by (intro tagsArrOf_renderTag) auto
  show ?thesis
    unfolding tagMapOf_def a
    by (simp only: tagLoop_pairs [OF length_concat_pairs] pairs_concat empty_map_add)
qed

subsection \<open>When the normalizer completes\<close>

lemma tagMapOf_even: "even (length (tagsArrOf tag)) \<Longrightarrow> tagMapOf tag = Inr (map_of (rev (pairs (tagsArrOf tag))))"
  unfolding tagMapOf_def by (simp only: tagLoop_pairs empty_map_add)

lemma tagMapOf_odd: "odd (length (tagsArrOf tag)) \<Longrightarrow> tagMapOf tag = Inl IndexOutOfRange"
  unfolding tagMapOf_def by (rule tagLoop_odd)

lemma tagMapOf_ok_iff: "(\<exists>m. tagMapOf tag = Inr m) \<longleftrightarrow> even (length (tagsArrOf tag))"
proof (cases "even (length (tagsArrOf tag))")
  case True
  then show ?thesis by (simp add: tagMapOf_even)
next
  case False
  then show ?thesis by (simp add: tagMapOf_odd)
qed

lemma tagMapOf_fault_iff: "tagMapOf tag = Inl IndexOutOfRange \<longleftrightarrow> odd (length (tagsArrOf tag))"
proof (cases "even (length (tagsArrOf tag))")
  case True
  then show ?thesis by (simp add: tagMapOf_even)
next
  case False
  then show ?thesis by (simp add: tagMapOf_odd)
qed

lemma getField_ok_iff:
  "(\<exists>f. getField v = Inr f) \<longleftrightarrow>
     even (length (tagsArrOf (Tag v))) \<and> (\<exists>t. fieldTypeOf (ast_Field.Type v) = Inr t) \<and> Names v \<noteq> []"
proof (cases "even (length (tagsArrOf (Tag v)))")
  case True
  then show ?thesis
    by (auto simp: getField_def tagMapOf_even split: sum.splits list.splits)
next
  case False
  then show ?thesis
    by (simp add: getField_def tagMapOf_odd)
qed

lemma getFields_ok_iff:
  "(\<exists>fs. getFields list = Inr fs) \<longleftrightarrow> list_all (\<lambda>v. \<exists>f. getField v = Inr f) list"
  by (induction list) (auto split: sum.splits)

lemma getStructure_ok_iff:
  "(\<exists>s. getStructure pkg ts = Inr s) \<longleftrightarrow>
     (\<exists>list. ast_TypeSpec.Type ts = StructType list \<and>
        list_all (\<lambda>v. even (length (tagsArrOf (Tag v)))
                   \<and> (\<exists>t. fieldTypeOf (ast_Field.Type v) = Inr t) \<and> Names v \<noteq> []) list)"
proof (cases "ast_TypeSpec.Type ts")
  case (StructType list)
  have "(\<exists>s. getStructure pkg ts = Inr s) \<longleftrightarrow> (\<exists>fs. getFields list = Inr fs)"
    by (auto simp: getStructure_def StructType split: sum.splits)
  then show ?thesis
    by (simp add: StructType getFields_ok_iff getField_ok_iff)
next
  case (NotStructType e)
  then show ?thesis by (simp add: getStructure_def)
qed

lemma getField_tags:
  "getField v = Inr f \<Longrightarrow> tags f = map_of (rev (pairs (tagsArrOf (Tag v))))"
proof (cases "even (length (tagsArrOf (Tag v)))")
  case True
  assume "getField v = Inr f"
  with True show ?thesis
    by (auto simp: getField_def tagMapOf_even split: sum.splits list.splits)
next
  case False
  assume "getField v = Inr f"
  with False show ?thesis
    by (simp add: getField_def tagMapOf_odd)
qed

lemma getFields_tags:
  "getFields list = Inr fs \<Longrightarrow> map tags fs = map (\<lambda>v. map_of (rev (pairs (tagsArrOf (Tag v))))) list"
proof (induction list arbitrary: fs)
  case Nil
  then show ?case by simp
next
  case (Cons v list)
  then obtain f fs' where f: "getField v = Inr f" and r: "getFields list = Inr fs'" and e: "fs = f # fs'"
    by (auto split: sum.splits)
  from Cons.IH [OF r] getField_tags [OF f] e show ?case by simp
qed

section \<open>The renderer in closed form\<close>

lemma writeImports_eq:
  "writeImports xs g = g\<lparr>data := data g @ concat (map importLine xs)\<rparr>"
  by (induction xs arbitrary: g) (simp_all add: WriteString_def importLine_def)

lemma writeSignatures_eq:
  "writeSignatures ms g = g\<lparr>data := data g @ concat (map signatureLine ms)\<rparr>"
  by (induction ms arbitrary: g) (simp_all add: WriteString_def signatureLine_def)

lemma writeMethods_eq:
  "writeMethods ms g = g\<lparr>data := data g @ concat (map methodText ms)\<rparr>"
  by (induction ms arbitrary: g) (simp_all add: WriteString_def methodText_def Let_def)

lemma GenerateFile_eq:
  "GenerateFile g fs =
     (let bytes = data g @ Generator.header g @ ''\<newline>\<newline>'' @ ''import (\<newline>''
            @ concat (map importLine (imports_list g)) @ '')\<newline>\<newline>''
            @ ''// '' @ Structure.name (structure g) @ ''Manager interface to interact with database\<newline>''
            @ ''type '' @ Structure.name (structure g) @ ''Manager interface {\<newline>''
            @ concat (map signatureLine (methods g)) @ ''}\<newline>\<newline>''
            @ concat (map methodText (methods g))
      in (fst (WriteFile (filePath g) bytes fs), g\<lparr>data := bytes\<rparr>, snd (WriteFile (filePath g) bytes fs)))"
  by (simp add: GenerateFile_def writeImports_eq writeSignatures_eq writeMethods_eq WriteString_def
      Let_def split: prod.splits)

lemma Generate_eq: "Generate s fs = WriteFile (targetPath s) (fileText s) fs"
  by (simp add: Generate_def GenerateFile_eq AddHeader_def AddImport_def AddMethod_def Let_def
      targetPath_def fileText_def split: prod.splits)

lemma WriteFile_twice: "WriteFile p b (snd (WriteFile p b fs)) = WriteFile p b fs"
  by (simp add: WriteFile_def)

lemma WriteFile_contents:
  "contents (snd (WriteFile p b fs)) p = (if writable fs p then Some b else contents fs p)"
  by (simp add: WriteFile_def)

section \<open>Structures that come from the parser\<close>

text \<open>The normalizer keeps the names: a structure it returns, from a declaration whose
  identifiers are identifiers, has field names and type names that do not end in a
  separator. The scenario's declaration gives the scenario's structure.\<close>

lemma identifierLike_noTrailingSep: "identifierLike s \<Longrightarrow> noTrailingSep s"
  by (cases s rule: rev_cases) (auto simp: identifierLike_def noTrailingSep_def)

lemma fieldTypeOf_noTrailingSep:
  assumes "fieldTypeOf t = Inr n" and "list_all identifierLike (identsOf t)"
  shows "noTrailingSep n"
proof (cases t)
  case (Ident x)
  with assms show ?thesis
    by (simp add: fieldTypeOf_def identifierLike_noTrailingSep)
next
  case (SelectorExpr x sel)
  with assms(1) obtain xn where x: "x = Ident xn" and n: "n = xn @ ''.'' @ sel"
    by (cases x) (simp_all add: fieldTypeOf_def)
  from assms(2) SelectorExpr have "identifierLike sel" by simp
  then have "noTrailingSep sel" by (rule identifierLike_noTrailingSep)
  then have "noTrailingSep (''.'' @ sel)" by (rule noTrailingSep_append)
  then show ?thesis unfolding n by (rule noTrailingSep_append)
next
  case (StarExpr x)
  with assms(1) show ?thesis by (simp add: fieldTypeOf_def)
next
  case (ArrayType x)
  with assms(1) show ?thesis by (simp add: fieldTypeOf_def)
qed

lemma getField_noTrailingSep:
  assumes "getField v = Inr f"
    and "list_all identifierLike (Names v)" and "list_all identifierLike (identsOf (ast_Field.Type v))"
  shows "noTrailingSep (Name f) \<and> noTrailingSep (Type f)"
proof -
  from assms(1) obtain m t n ns where t: "fieldTypeOf (ast_Field.Type v) = Inr t"
    and n: "Names v = n # ns" and f: "f = \<lparr>Name = n, Type = t, tags = m\<rparr>"
    by (auto simp: getField_def split: sum.splits list.splits)
  from n assms(2) have "noTrailingSep n" by (simp add: identifierLike_noTrailingSep)
  moreover from t assms(3) have "noTrailingSep t" by (rule fieldTypeOf_noTrailingSep)
  ultimately show ?thesis by (simp add: f)
qed

lemma getFields_noTrailingSep:
  assumes "getFields list = Inr fs"
    and "\<forall>v \<in> set list. list_all identifierLike (Names v) \<and> list_all identifierLike (identsOf (ast_Field.Type v))"
  shows "\<forall>f \<in> set fs. noTrailingSep (Name f) \<and> noTrailingSep (Type f)"
  using assms
proof (induction list arbitrary: fs)
  case Nil
  then show ?case by simp
next
  case (Cons v list)
  from Cons.prems(1) obtain f fs' where f: "getField v = Inr f" and r: "getFields list = Inr fs'"
    and e: "fs = f # fs'"
    by (auto split: sum.splits)
  from Cons.prems(2) have "list_all identifierLike (Names v)"
    "list_all identifierLike (identsOf (ast_Field.Type v))" by simp_all
  from getField_noTrailingSep [OF f this] have "noTrailingSep (Name f) \<and> noTrailingSep (Type f)" .
  moreover from Cons.IH [OF r] Cons.prems(2)
  have "\<forall>f \<in> set fs'. noTrailingSep (Name f) \<and> noTrailingSep (Type f)" by simp
  ultimately show ?case by (simp add: e)
qed

lemma getStructure_noTrailingSep:
  assumes "getStructure pkg ts = Inr s" and "ast_TypeSpec.Type ts = StructType list"
    and "\<forall>v \<in> set list. list_all identifierLike (Names v) \<and> list_all identifierLike (identsOf (ast_Field.Type v))"
  shows "\<forall>f \<in> set (fields_list s). noTrailingSep (Name f) \<and> noTrailingSep (Type f)"
proof -
  from assms(1,2) obtain fs where fs: "getFields list = Inr fs" and "fields_list s = fs"
    by (auto simp: getStructure_def split: sum.splits)
  with getFields_noTrailingSep [OF fs assms(3)] show ?thesis by simp
qed

lemma getStructure_user: "getStructure pkg userTypeSpec = Inr (userStructure pkg)"
  by (simp add: getStructure_def userTypeSpec_def userStructure_def getField_def tagMapOf_def
      tagsArrOf_def TrimSuffix_def fieldTypeOf_def)

lemma getStructure_untaggedLast: "getStructure ''model'' untaggedLastTypeSpec = Inr untaggedLastStructure"
  by (simp add: getStructure_def untaggedLastTypeSpec_def untaggedLastStructure_def getField_def
      tagMapOf_def tagsArrOf_def TrimSuffix_def fieldTypeOf_def)

section \<open>The claims\<close>


text \<open>
  Claim C1. For the structure \<open>User\<close> with the fields \<open>ID int64\<close> (tags
  \<open>column = id\<close>, \<open>primary = true\<close>) and \<open>Name string\<close> (tag \<open>column = name\<close>), in
  this order, and whatever its package: the Create statement is
  \<^verbatim>\<open>INSERT INTO testTable (id, name) VALUES ($1, $2)\<close>, the Select statement is
  \<^verbatim>\<open>SELECT (id, name) FROM testTable WHERE (id = $1)\<close> with the input parameters
  \<^verbatim>\<open>ctx context.Context, ID int64\<close>, the Update statement is
  \<^verbatim>\<open>UPDATE testTable SET (name = $2) WHERE (id = $1)\<close> and the Delete statement is
  \<^verbatim>\<open>DELETE FROM testTable WHERE (id = $1)\<close>. Each statement stands in the body as a
  Go string literal, handed to the exec or query-row call with the values shown.
\<close>

theorem user_scenario:
  \<open>body (generateCreate (userStructure pkg)) =
      generateExec ''UserCreate'' ''"INSERT INTO testTable (id, name) VALUES ($1, $2)"'' ''data.ID, data.Name''
   \<and> body (generateSelect (userStructure pkg)) =
      generateQueryRow ''UserSelect'' ''"SELECT (id, name) FROM testTable WHERE (id = $1)"'' ''ID''
        ''element.ID, element.Name''
   \<and> iParams (generateSelect (userStructure pkg)) = ''ctx context.Context, ID int64''
   \<and> body (generateUpdate (userStructure pkg)) =
      generateExec ''UserUpdate'' ''"UPDATE testTable SET (name = $2) WHERE (id = $1)"'' ''data.ID, data.Name''
   \<and> body (generateDelete (userStructure pkg)) =
      generateExec ''UserDelete'' ''"DELETE FROM testTable WHERE (id = $1)"'' ''ID''\<close>
proof -
  have c: \<open>body (generateCreate (userStructure pkg)) =
      generateExec ''UserCreate'' ''"INSERT INTO testTable (id, name) VALUES ($1, $2)"'' ''data.ID, data.Name''\<close>
    by (simp add: generateCreate_def userStructure_def TrimRight_def tagValue_def Itoa.simps digitChar_def Let_def)
  have s: \<open>body (generateSelect (userStructure pkg)) =
      generateQueryRow ''UserSelect'' ''"SELECT (id, name) FROM testTable WHERE (id = $1)"'' ''ID''
        ''element.ID, element.Name''\<close>
    by (simp add: generateSelect_def userStructure_def TrimRight_def TrimSuffix_def tagValue_def Itoa.simps digitChar_def Let_def)
  have i: \<open>iParams (generateSelect (userStructure pkg)) = ''ctx context.Context, ID int64''\<close>
    by (simp add: generateSelect_def userStructure_def TrimRight_def TrimSuffix_def tagValue_def Itoa.simps digitChar_def Let_def)
  have u: \<open>body (generateUpdate (userStructure pkg)) =
      generateExec ''UserUpdate'' ''"UPDATE testTable SET (name = $2) WHERE (id = $1)"'' ''data.ID, data.Name''\<close>
    by (simp add: generateUpdate_def userStructure_def TrimRight_def tagValue_def Itoa.simps digitChar_def Let_def)
  have d: \<open>body (generateDelete (userStructure pkg)) =
      generateExec ''UserDelete'' ''"DELETE FROM testTable WHERE (id = $1)"'' ''ID''\<close>
    by (simp add: generateDelete_def userStructure_def TrimRight_def tagValue_def Itoa.simps digitChar_def Let_def)
  from c s i u d show ?thesis by blast
qed

text \<open>
  Claim C8. For every structure, the body of each of the Create, Update and Delete methods
  is, in this order: the exec call; the branch on the driver's error, which returns an
  error that wraps it under the method's own name; the separate branch on zero affected
  rows, which returns an error saying \<open>no rows affected\<close> under the method's own name; and
  \<^verbatim>\<open>return nil\<close>.
\<close>

theorem exec_error_contract:
  "(\<exists>sql vals. body (generateCreate s) =
       execCall sql vals @ driverErrorBranch (name (generateCreate s))
         @ noRowsBranch (name (generateCreate s)) @ CHR 0x09 # ''return nil'')
   \<and> (\<exists>sql vals. body (generateUpdate s) =
       execCall sql vals @ driverErrorBranch (name (generateUpdate s))
         @ noRowsBranch (name (generateUpdate s)) @ CHR 0x09 # ''return nil'')
   \<and> (\<exists>sql vals. body (generateDelete s) =
       execCall sql vals @ driverErrorBranch (name (generateDelete s))
         @ noRowsBranch (name (generateDelete s)) @ CHR 0x09 # ''return nil'')
   \<and> name (generateCreate s) = Structure.name s @ ''Create''
   \<and> name (generateUpdate s) = Structure.name s @ ''Update''
   \<and> name (generateDelete s) = Structure.name s @ ''Delete''"
proof -
  have e: "generateExec m sql vals =
      execCall sql vals @ driverErrorBranch m @ noRowsBranch m @ CHR 0x09 # ''return nil''" for m sql vals
    by (simp add: generateExec_def execCall_def driverErrorBranch_def noRowsBranch_def)
  have c: "\<exists>sql vals. body (generateCreate s) = generateExec (name (generateCreate s)) sql vals"
    unfolding generateCreate_def createLoop_eq Let_def prod.case by simp blast
  have u: "\<exists>sql vals. body (generateUpdate s) = generateExec (name (generateUpdate s)) sql vals"
    unfolding generateUpdate_def updateLoop_eq Let_def prod.case by simp blast
  have d: "\<exists>sql vals. body (generateDelete s) = generateExec (name (generateDelete s)) sql vals"
    unfolding generateDelete_def deleteLoop_eq Let_def prod.case by simp blast
  have n: "name (generateCreate s) = Structure.name s @ ''Create''"
    "name (generateUpdate s) = Structure.name s @ ''Update''"
    "name (generateDelete s) = Structure.name s @ ''Delete''"
    unfolding generateCreate_def generateUpdate_def generateDelete_def
      createLoop_eq updateLoop_eq deleteLoop_eq Let_def prod.case by simp_all
  from c u d n show ?thesis unfolding e by blast
qed

text \<open>
  Claim C2. For every structure with \<open>n\<close> fields, whose field names are as the parser
  gives them (not empty, not ending in a comma or a space): the Update statement is
  \<^verbatim>\<open>UPDATE <table> SET (<set>) WHERE (<where>)\<close>, where \<open><set>\<close> is the comma-joined
  list of \<open>column = $i\<close> over the fields that are not primary and \<open><where>\<close> the
  \<open>AND\<close>-joined list over the primary ones, \<open>i\<close> being the position of the field in the
  declaration (from 1, counting every field); the exec values are \<open>data.<FieldName>\<close> for
  every field in declaration order. The placeholder numbers of the two clauses together
  are exactly \<open>1..n\<close>, none in both clauses and none twice, and the field numbered \<open>i\<close> is
  the \<open>i\<close>-th field.
\<close>

theorem update_placeholders_partition:
  assumes "\<forall>f \<in> set (fields_list s). noTrailingSep (Name f)"
  shows \<open>body (generateUpdate s) =
       generateExec (Structure.name s @ ''Update'')
         (''"UPDATE '' @ tableName s @ '' SET ('' @ Join (map eqTerm (setPart (fields_list s))) '', ''
            @ '') WHERE ('' @ Join (map eqTerm (wherePart (fields_list s))) '' AND '' @ '')"'')
         (Join (map (\<lambda>f. ''data.'' @ Name f) (fields_list s)) '', '')
     \<and> snd ` set (setPart (fields_list s)) \<union> snd ` set (wherePart (fields_list s))
         = {1..length (fields_list s)}
     \<and> snd ` set (setPart (fields_list s)) \<inter> snd ` set (wherePart (fields_list s)) = {}
     \<and> distinct (map snd (setPart (fields_list s)) @ map snd (wherePart (fields_list s)))
     \<and> (\<forall>q \<in> set (setPart (fields_list s)) \<union> set (wherePart (fields_list s)).
           1 \<le> snd q \<and> snd q \<le> length (fields_list s) \<and> fields_list s ! (snd q - 1) = fst q)\<close>
proof -
  have "f \<in> set (fields_list s) \<Longrightarrow> noTrailingSep (Name f)" for f
    using assms by blast
  from generateUpdate_body [OF this] parts_union parts_disjoint parts_distinct parts_position
  show ?thesis by blast
qed

theorem update_placeholders_partition_witness:
  \<open>noTrailingSep ''ID'' \<and> noTrailingSep ''Name''
   \<and> body (generateUpdate (userStructure ''model'')) =
       generateExec ''UserUpdate'' ''"UPDATE testTable SET (name = $2) WHERE (id = $1)"''
         ''data.ID, data.Name''
   \<and> setPart (fields_list (userStructure ''model'')) = [(fields_list (userStructure ''model'') ! 1, 2)]
   \<and> wherePart (fields_list (userStructure ''model'')) = [(fields_list (userStructure ''model'') ! 0, 1)]\<close>
proof -
  have h: "\<forall>f \<in> set (fields_list (userStructure ''model'')). noTrailingSep (Name f)"
    by (simp add: userStructure_def noTrailingSep_def)
  have p: "setPart (fields_list (userStructure ''model'')) = [(fields_list (userStructure ''model'') ! 1, 2)]"
    "wherePart (fields_list (userStructure ''model'')) = [(fields_list (userStructure ''model'') ! 0, 1)]"
    by (simp_all add: userStructure_def setPart_def wherePart_def numbered_def isPrimary_def tagValue_def)
  have e: \<open>Join (map eqTerm [(fields_list (userStructure ''model'') ! 1, 2)]) '', '' = ''name = $2''\<close>
    \<open>Join (map eqTerm [(fields_list (userStructure ''model'') ! 0, 1)]) '' AND '' = ''id = $1''\<close>
    \<open>Join (map (\<lambda>f. ''data.'' @ Name f) (fields_list (userStructure ''model''))) '', '' = ''data.ID, data.Name''\<close>
    by (simp_all add: userStructure_def eqTerm_def tagValue_def Itoa.simps digitChar_def)
  have n: "Structure.name (userStructure ''model'') = ''User''" "tableName (userStructure ''model'') = ''testTable''"
    by (simp_all add: userStructure_def)
  from update_placeholders_partition [OF h]
  have \<open>body (generateUpdate (userStructure ''model'')) =
       generateExec ''UserUpdate'' ''"UPDATE testTable SET (name = $2) WHERE (id = $1)"''
         ''data.ID, data.Name''\<close>
    unfolding p e n by simp
  moreover have "noTrailingSep ''ID'' \<and> noTrailingSep ''Name''"
    by (simp add: noTrailingSep_def)
  ultimately show ?thesis using p by blast
qed

text \<open>
  Claim C3. For every structure with \<open>k\<close> primary fields, whose names and types are as the
  parser gives them: Select and Delete each build the WHERE clause as the \<open>AND\<close>-joined list
  of the \<open>k\<close> predicates \<open>column = $i\<close> over the primary fields in declaration order,
  numbered \<open>1..k\<close> on their own; the value list is the names of these \<open>k\<close> fields and the
  input parameters are the context followed by \<open>Name Type\<close> of these \<open>k\<close> fields, in
  the same order.
\<close>

theorem key_where_clause:
  assumes "\<forall>f \<in> set (fields_list s). isPrimary f \<longrightarrow> noTrailingSep (Name f) \<and> noTrailingSep (Type f)"
  shows \<open>body (generateSelect s) =
       generateQueryRow (Structure.name s @ ''Select'')
         (''"SELECT ('' @ Join (map (\<lambda>f. tagValue f ''column'') (fields_list s)) '', ''
            @ '') FROM '' @ tableName s
            @ '' WHERE ('' @ Join (map eqTerm (numbered (filter isPrimary (fields_list s)))) '' AND '' @ '')"'')
         (Join (map Name (filter isPrimary (fields_list s))) '', '')
         (Join (map (\<lambda>f. ''element.'' @ Name f) (fields_list s)) '', '')
     \<and> iParams (generateSelect s) =
       Join (''ctx context.Context'' # map (\<lambda>f. Name f @ '' '' @ Type f) (filter isPrimary (fields_list s))) '', ''
     \<and> body (generateDelete s) =
       generateExec (Structure.name s @ ''Delete'')
         (''"DELETE FROM '' @ tableName s
            @ '' WHERE ('' @ Join (map eqTerm (numbered (filter isPrimary (fields_list s)))) '' AND '' @ '')"'')
         (Join (map Name (filter isPrimary (fields_list s))) '', '')
     \<and> iParams (generateDelete s) =
       Join (''ctx context.Context'' # map (\<lambda>f. Name f @ '' '' @ Type f) (filter isPrimary (fields_list s))) '', ''
     \<and> length (map eqTerm (numbered (filter isPrimary (fields_list s)))) = length (filter isPrimary (fields_list s))
     \<and> map fst (numbered (filter isPrimary (fields_list s))) = filter isPrimary (fields_list s)
     \<and> map snd (numbered (filter isPrimary (fields_list s))) = [1..<Suc (length (filter isPrimary (fields_list s)))]\<close>
proof -
  have h: "f \<in> set (fields_list s) \<Longrightarrow> isPrimary f \<Longrightarrow> noTrailingSep (Name f) \<and> noTrailingSep (Type f)" for f
    using assms by blast
  have l: "length (map eqTerm (numbered (filter isPrimary (fields_list s)))) = length (filter isPrimary (fields_list s))"
    using numbered_fst [of "filter isPrimary (fields_list s)"]
    by (metis length_map)
  from generateSelect_closed [of s, OF h] generateDelete_closed [of s, OF h] l numbered_fst numbered_snd
  show ?thesis by blast
qed

theorem key_where_clause_witness:
  \<open>noTrailingSep ''ID'' \<and> noTrailingSep ''int64''
   \<and> body (generateDelete (userStructure ''model'')) =
       generateExec ''UserDelete'' ''"DELETE FROM testTable WHERE (id = $1)"'' ''ID''
   \<and> iParams (generateDelete (userStructure ''model'')) = ''ctx context.Context, ID int64''\<close>
proof -
  have h: "\<forall>f \<in> set (fields_list (userStructure ''model'')).
       isPrimary f \<longrightarrow> noTrailingSep (Name f) \<and> noTrailingSep (Type f)"
    by (simp add: userStructure_def noTrailingSep_def)
  have p: "filter isPrimary (fields_list (userStructure ''model'')) = [fields_list (userStructure ''model'') ! 0]"
    by (simp add: userStructure_def isPrimary_def tagValue_def)
  have e: \<open>Join (map eqTerm (numbered [fields_list (userStructure ''model'') ! 0])) '' AND '' = ''id = $1''\<close>
    \<open>Join (map Name [fields_list (userStructure ''model'') ! 0]) '', '' = ''ID''\<close>
    \<open>Join (''ctx context.Context'' # map (\<lambda>f. Name f @ '' '' @ Type f) [fields_list (userStructure ''model'') ! 0]) '', ''
       = ''ctx context.Context, ID int64''\<close>
    by (simp_all add: userStructure_def numbered_def eqTerm_def tagValue_def Itoa.simps digitChar_def)
  have n: "Structure.name (userStructure ''model'') = ''User''" "tableName (userStructure ''model'') = ''testTable''"
    by (simp_all add: userStructure_def)
  from key_where_clause [OF h]
  have \<open>body (generateDelete (userStructure ''model'')) =
       generateExec ''UserDelete'' ''"DELETE FROM testTable WHERE (id = $1)"'' ''ID''
     \<and> iParams (generateDelete (userStructure ''model'')) = ''ctx context.Context, ID int64''\<close>
    unfolding p e n by simp
  moreover have "noTrailingSep ''ID'' \<and> noTrailingSep ''int64''"
    by (simp add: noTrailingSep_def)
  ultimately show ?thesis by blast
qed

text \<open>
  Claim C10. For every structure in which no field has the tag \<open>primary\<close> with the value
  \<open>true\<close>: Select and Delete still produce their method, the statement ends in
  \<^verbatim>\<open>WHERE ()\<close>, the value list of the WHERE clause is empty, and the input parameters are
  \<^verbatim>\<open>ctx context.Context\<close> alone. The synthesizers have no error result: reading the
  missing key gives the empty string.
\<close>

theorem no_key_empty_where:
  assumes "\<forall>f \<in> set (fields_list s). tags f ''primary'' \<noteq> Some ''true''"
  shows \<open>body (generateSelect s) =
       generateQueryRow (Structure.name s @ ''Select'')
         (''"SELECT ('' @ Join (map (\<lambda>f. tagValue f ''column'') (fields_list s)) '', ''
            @ '') FROM '' @ tableName s @ '' WHERE ()"'')
         []
         (Join (map (\<lambda>f. ''element.'' @ Name f) (fields_list s)) '', '')
     \<and> iParams (generateSelect s) = ''ctx context.Context''
     \<and> body (generateDelete s) =
       generateExec (Structure.name s @ ''Delete'')
         (''"DELETE FROM '' @ tableName s @ '' WHERE ()"'') []
     \<and> iParams (generateDelete s) = ''ctx context.Context''\<close>
proof -
  have e: "filter isPrimary (fields_list s) = []"
    using assms by (simp add: filter_empty_conv not_primary_iff)
  have h: "f \<in> set (fields_list s) \<Longrightarrow> isPrimary f \<Longrightarrow> noTrailingSep (Name f) \<and> noTrailingSep (Type f)" for f
    using assms by (simp add: not_primary_iff)
  from generateSelect_closed [of s, OF h] generateDelete_closed [of s, OF h]
  show ?thesis unfolding e by (simp add: numbered_def)
qed

theorem no_key_empty_where_witness:
  \<open>map (\<lambda>f. tags f ''primary'') (fields_list noteStructure) = [Some ''false'', None]
   \<and> body (generateSelect noteStructure) =
       generateQueryRow ''NoteSelect'' ''"SELECT (text, seen) FROM testTable WHERE ()"'' []
         ''element.Text, element.Seen''
   \<and> iParams (generateSelect noteStructure) = ''ctx context.Context''
   \<and> body (generateDelete noteStructure) =
       generateExec ''NoteDelete'' ''"DELETE FROM testTable WHERE ()"'' []
   \<and> iParams (generateDelete noteStructure) = ''ctx context.Context''\<close>
proof -
  have h: "\<forall>f \<in> set (fields_list noteStructure). tags f ''primary'' \<noteq> Some ''true''"
    by (simp add: noteStructure_def)
  have e: \<open>Join (map (\<lambda>f. tagValue f ''column'') (fields_list noteStructure)) '', '' = ''text, seen''\<close>
    \<open>Join (map (\<lambda>f. ''element.'' @ Name f) (fields_list noteStructure)) '', '' = ''element.Text, element.Seen''\<close>
    by (simp_all add: noteStructure_def tagValue_def)
  have n: "Structure.name noteStructure = ''Note''" "tableName noteStructure = ''testTable''"
    by (simp_all add: noteStructure_def)
  from no_key_empty_where [OF h]
  have \<open>body (generateSelect noteStructure) =
       generateQueryRow ''NoteSelect'' ''"SELECT (text, seen) FROM testTable WHERE ()"'' []
         ''element.Text, element.Seen''
   \<and> iParams (generateSelect noteStructure) = ''ctx context.Context''
   \<and> body (generateDelete noteStructure) =
       generateExec ''NoteDelete'' ''"DELETE FROM testTable WHERE ()"'' []
   \<and> iParams (generateDelete noteStructure) = ''ctx context.Context''\<close>
    unfolding e n by simp
  moreover have "map (\<lambda>f. tags f ''primary'') (fields_list noteStructure) = [Some ''false'', None]"
    by (simp add: noteStructure_def)
  ultimately show ?thesis by blast
qed

text \<open>
  Claim C4, at a structure that departs from it. The claim says that the column list of
  the Create statement is the \<open>column\<close> tag values of all the fields, comma-joined with the
  trailing separator removed. In the structure \<open>User\<close> whose second field \<open>Name\<close> has
  no tag, the values are \<open>id\<close> and the empty string, and their comma-joined list is
  \<^verbatim>\<open>id, \<close> (as the Select statement of the same structure has it, which drops the
  separator with \<^verbatim>\<open>TrimSuffix\<close>). The Create statement has the column list
  \<^verbatim>\<open>id\<close>: \<^verbatim>\<open>TrimRight\<close> eats the empty last column together with both
  separators, and one column stands against the two placeholders.
\<close>

theorem create_untagged_last_field:
  \<open>body (generateCreate untaggedLastStructure) =
      generateExec ''UserCreate'' ''"INSERT INTO testTable (id) VALUES ($1, $2)"'' ''data.ID, data.Name''
   \<and> Join (map (\<lambda>f. tagValue f ''column'') (fields_list untaggedLastStructure)) '', '' = ''id, ''
   \<and> body (generateSelect untaggedLastStructure) =
      generateQueryRow ''UserSelect'' ''"SELECT (id, ) FROM testTable WHERE (id = $1)"'' ''ID''
        ''element.ID, element.Name''\<close>
proof -
  have c: \<open>body (generateCreate untaggedLastStructure) =
      generateExec ''UserCreate'' ''"INSERT INTO testTable (id) VALUES ($1, $2)"'' ''data.ID, data.Name''\<close>
    by (simp add: generateCreate_def untaggedLastStructure_def TrimRight_def tagValue_def
        Itoa.simps digitChar_def Let_def)
  have j: \<open>Join (map (\<lambda>f. tagValue f ''column'') (fields_list untaggedLastStructure)) '', '' = ''id, ''\<close>
    by (simp add: untaggedLastStructure_def tagValue_def)
  have s: \<open>body (generateSelect untaggedLastStructure) =
      generateQueryRow ''UserSelect'' ''"SELECT (id, ) FROM testTable WHERE (id = $1)"'' ''ID''
        ''element.ID, element.Name''\<close>
    by (simp add: generateSelect_def untaggedLastStructure_def TrimRight_def TrimSuffix_def tagValue_def
        Itoa.simps digitChar_def Let_def)
  from c j s show ?thesis by blast
qed

text \<open>
  Claim C5. The tag text of the two pairs \<open>column\<close> to \<open>id\<close> and \<open>primary\<close> to \<open>true\<close>
  normalizes to the map with exactly these two entries. A field carrying this map, anywhere
  in a structure (names and types as the parser gives them), is one of the primary fields
  that make the WHERE clause, the value list and the input parameters of Select and
  Delete, with the predicate \<open>id = $j\<close>, \<open>j\<close> being one more than the number of primary
  fields before it; in Update it is in the WHERE clause under its declaration position,
  and no entry of the SET clause has this position.
\<close>

theorem key_tag_round_trip:
  assumes "fields_list s = pre @ keyField n t # post"
    and "\<forall>f \<in> set (fields_list s). noTrailingSep (Name f) \<and> noTrailingSep (Type f)"
  shows \<open>tagMapOf (Some ''`column:"id" primary:"true"`'') = Inr (tags (keyField n t))
     \<and> tags (keyField n t) = [''column'' \<mapsto> ''id'', ''primary'' \<mapsto> ''true'']
     \<and> dom (tags (keyField n t)) = {''column'', ''primary''}
     \<and> body (generateSelect s) =
       generateQueryRow (Structure.name s @ ''Select'')
         (''"SELECT ('' @ Join (map (\<lambda>f. tagValue f ''column'') (fields_list s)) '', ''
            @ '') FROM '' @ tableName s
            @ '' WHERE ('' @ Join (map eqTerm (numbered (filter isPrimary (fields_list s)))) '' AND '' @ '')"'')
         (Join (map Name (filter isPrimary (fields_list s))) '', '')
         (Join (map (\<lambda>f. ''element.'' @ Name f) (fields_list s)) '', '')
     \<and> iParams (generateSelect s) =
       Join (''ctx context.Context'' # map (\<lambda>f. Name f @ '' '' @ Type f) (filter isPrimary (fields_list s))) '', ''
     \<and> body (generateDelete s) =
       generateExec (Structure.name s @ ''Delete'')
         (''"DELETE FROM '' @ tableName s
            @ '' WHERE ('' @ Join (map eqTerm (numbered (filter isPrimary (fields_list s)))) '' AND '' @ '')"'')
         (Join (map Name (filter isPrimary (fields_list s))) '', '')
     \<and> iParams (generateDelete s) =
       Join (''ctx context.Context'' # map (\<lambda>f. Name f @ '' '' @ Type f) (filter isPrimary (fields_list s))) '', ''
     \<and> body (generateUpdate s) =
       generateExec (Structure.name s @ ''Update'')
         (''"UPDATE '' @ tableName s @ '' SET ('' @ Join (map eqTerm (setPart (fields_list s))) '', ''
            @ '') WHERE ('' @ Join (map eqTerm (wherePart (fields_list s))) '' AND '' @ '')"'')
         (Join (map (\<lambda>f. ''data.'' @ Name f) (fields_list s)) '', '')
     \<and> length (filter isPrimary pre) < length (filter isPrimary (fields_list s))
     \<and> filter isPrimary (fields_list s) ! length (filter isPrimary pre) = keyField n t
     \<and> numbered (filter isPrimary (fields_list s)) ! length (filter isPrimary pre)
         = (keyField n t, Suc (length (filter isPrimary pre)))
     \<and> eqTerm (keyField n t, Suc (length (filter isPrimary pre)))
         = ''id = $'' @ Itoa (Suc (length (filter isPrimary pre)))
     \<and> (keyField n t, Suc (length pre)) \<in> set (wherePart (fields_list s))
     \<and> Suc (length pre) \<notin> snd ` set (setPart (fields_list s))\<close>
proof -
  let ?k = "keyField n t" and ?fs = "fields_list s"
  have t1: \<open>tagMapOf (Some ''`column:"id" primary:"true"`'') = Inr (tags ?k)\<close>
    by (simp add: tagMapOf_def tagsArrOf_def TrimSuffix_def keyField_def)
  have t2: "tags ?k = [''column'' \<mapsto> ''id'', ''primary'' \<mapsto> ''true'']"
    by (simp add: keyField_def)
  have t3: "dom (tags ?k) = {''column'', ''primary''}"
    unfolding t2 by auto
  have h: "f \<in> set ?fs \<Longrightarrow> isPrimary f \<Longrightarrow> noTrailingSep (Name f) \<and> noTrailingSep (Type f)" for f
    using assms(2) by blast
  have h': "f \<in> set ?fs \<Longrightarrow> noTrailingSep (Name f)" for f
    using assms(2) by blast
  have fp: "filter isPrimary ?fs = filter isPrimary pre @ ?k # filter isPrimary post"
    by (simp add: assms(1) keyField_primary)
  have p1: "length (filter isPrimary pre) < length (filter isPrimary ?fs)"
    unfolding fp by simp
  have p2: "filter isPrimary ?fs ! length (filter isPrimary pre) = ?k"
    unfolding fp by simp
  have p3: "numbered (filter isPrimary ?fs) ! length (filter isPrimary pre)
      = (?k, Suc (length (filter isPrimary pre)))"
    using numbered_nth [OF p1] p2 by simp
  have pos: "length pre < length ?fs" "?fs ! length pre = ?k"
    by (simp_all add: assms(1))
  then have m: "(?k, Suc (length pre)) \<in> set (numbered ?fs)"
    by (simp add: in_numbered)
  then have w: "(?k, Suc (length pre)) \<in> set (wherePart ?fs)"
    by (simp add: wherePart_def keyField_primary)
  have ns: "Suc (length pre) \<notin> snd ` set (setPart ?fs)"
  proof
    assume "Suc (length pre) \<in> snd ` set (setPart ?fs)"
    then obtain f where "(f, Suc (length pre)) \<in> set (numbered ?fs)" "\<not> isPrimary f"
      by (auto simp: setPart_def)
    with pos have "f = keyField n t" by (simp add: in_numbered)
    with \<open>\<not> isPrimary f\<close> show False by (simp add: keyField_primary)
  qed
  show ?thesis
    by (intro conjI t1 t2 t3 generateSelect_closed [of s, OF h] generateDelete_closed [of s, OF h]
        generateUpdate_body [of s, OF h'] p1 p2 p3 keyField_term w ns)
qed

theorem key_tag_round_trip_witness:
  \<open>fields_list (userStructure ''model'') = [] @ keyField ''ID'' ''int64'' # tl (fields_list (userStructure ''model''))
   \<and> tagMapOf (Some ''`column:"id" primary:"true"`'') = Inr (tags (keyField ''ID'' ''int64''))
   \<and> (keyField ''ID'' ''int64'', Suc 0) \<in> set (wherePart (fields_list (userStructure ''model'')))
   \<and> Suc 0 \<notin> snd ` set (setPart (fields_list (userStructure ''model'')))\<close>
proof -
  have a: "fields_list (userStructure ''model'') = [] @ keyField ''ID'' ''int64'' # tl (fields_list (userStructure ''model''))"
    by (simp add: userStructure_def keyField_def)
  have b: "\<forall>f \<in> set (fields_list (userStructure ''model'')). noTrailingSep (Name f) \<and> noTrailingSep (Type f)"
    by (simp add: userStructure_def noTrailingSep_def)
  from key_tag_round_trip [OF a b] a show ?thesis
    apply (elim conjE)
    apply (simp (no_asm_use) only: list.size)
    done
qed

text \<open>
  Claim C6 as it is worded fails on the code. On the tag literal
  \<^verbatim>\<open>x:"1"  y:"2"  z:"3"\<close> (two spaces between the pairs) the worded algorithm gives the
  three entries \<open>x\<close>, \<open>y\<close>, \<open>z\<close>; the code deletes the quotes instead of turning them
  into spaces and splits at every single space, so it sees the tokens
  \<open>x, 1, "", y, 2, "", z, 3\<close> and builds a map without the key \<open>y\<close>.
\<close>

theorem tag_normalizer_spec_counterexample:
  \<open>specTagMap (Some ''`x:"1"  y:"2"  z:"3"`'') = Some [''x'' \<mapsto> ''1'', ''y'' \<mapsto> ''2'', ''z'' \<mapsto> ''3'']
   \<and> tagMapOf (Some ''`x:"1"  y:"2"  z:"3"`'') = Inr [''x'' \<mapsto> ''1'', [] \<mapsto> ''y'', ''2'' \<mapsto> [], ''z'' \<mapsto> ''3'']
   \<and> tagMapOf (Some ''`x:"1"  y:"2"  z:"3"`'') \<noteq> Inr [''x'' \<mapsto> ''1'', ''y'' \<mapsto> ''2'', ''z'' \<mapsto> ''3'']\<close>
proof -
  have a: \<open>specTagMap (Some ''`x:"1"  y:"2"  z:"3"`'') = Some [''x'' \<mapsto> ''1'', ''y'' \<mapsto> ''2'', ''z'' \<mapsto> ''3'']\<close>
    by (simp add: specTagMap_def stripSurrounding_def isQuoteMark_def isWhitespace_def)
  have b: \<open>tagMapOf (Some ''`x:"1"  y:"2"  z:"3"`'') = Inr [''x'' \<mapsto> ''1'', [] \<mapsto> ''y'', ''2'' \<mapsto> [], ''z'' \<mapsto> ''3'']\<close>
    by (simp add: tagMapOf_def tagsArrOf_def TrimSuffix_def)
  have "[''x'' \<mapsto> ''1'', [] \<mapsto> ''y'', ''2'' \<mapsto> [], ''z'' \<mapsto> ''3''] ''y'' = None"
    "[''x'' \<mapsto> ''1'', ''y'' \<mapsto> ''2'', ''z'' \<mapsto> ''3''] ''y'' = Some ''2''"
    by simp_all
  then have "[''x'' \<mapsto> ''1'', [] \<mapsto> ''y'', ''2'' \<mapsto> [], ''z'' \<mapsto> ''3'']
      \<noteq> [''x'' \<mapsto> ''1'', ''y'' \<mapsto> ''2'', ''z'' \<mapsto> ''3'']"
    by (metis option.distinct(1))
  with a b show ?thesis by simp
qed

text \<open>
  Claim C6, amended. Without a tag the map is empty. With a tag text \<open>a\<close> the tokens are
  those of splitting at every single space (empty pieces kept) the text \<open>a\<close> with one
  trailing space dropped, every backtick and double quote deleted and every colon turned
  into one space. When the tokens are \<open>2n\<close> in number the map is that of the pairs
  \<open>(token[2k], token[2k+1])\<close>, \<open>k < n\<close>, a later pair overriding an earlier one with the
  same key. For the literal of \<open>n \<ge> 1\<close> pairs \<open>key:"value"\<close> separated by single spaces,
  with keys and values free of space, colon, quote and backtick, the tokens are exactly
  \<open>k1, v1, \<dots>, kn, vn\<close>.
\<close>

theorem tag_normalizer_algorithm:
  \<open>tagMapOf None = Inr Map.empty
   \<and> tagsArrOf (Some a) =
       Split (ReplaceAll (ReplaceAll (ReplaceAll (TrimSuffix a '' '') (CHR 0x60) []) (CHR 0x22) [])
                (CHR '':'') '' '') (CHR '' '')
   \<and> (even (length (tagsArrOf (Some a))) \<longrightarrow>
        tagMapOf (Some a) = Inr (map_of (rev (pairs (tagsArrOf (Some a)))))
        \<and> length (pairs (tagsArrOf (Some a))) = length (tagsArrOf (Some a)) div 2
        \<and> (\<forall>k < length (tagsArrOf (Some a)) div 2.
              pairs (tagsArrOf (Some a)) ! k
                = (tagsArrOf (Some a) ! (2 * k), tagsArrOf (Some a) ! (2 * k + 1))))
   \<and> (kvs \<noteq> [] \<and> (\<forall>kv \<in> set kvs. cleanToken (fst kv) \<and> cleanToken (snd kv)) \<longrightarrow>
        tagsArrOf (Some (renderTag kvs)) = concat (map (\<lambda>kv. [fst kv, snd kv]) kvs)
        \<and> tagMapOf (Some (renderTag kvs)) = Inr (map_of (rev kvs)))\<close>
proof -
  have n: "tagMapOf None = Inr Map.empty"
    by (simp add: tagMapOf_def tagsArrOf_def)
  have t: "tagsArrOf (Some a) =
       Split (ReplaceAll (ReplaceAll (ReplaceAll (TrimSuffix a '' '') (CHR 0x60) []) (CHR 0x22) [])
                (CHR '':'') '' '') (CHR '' '')"
    by (simp add: tagsArrOf_def Let_def)
  have e: "even (length (tagsArrOf (Some a))) \<longrightarrow>
        tagMapOf (Some a) = Inr (map_of (rev (pairs (tagsArrOf (Some a)))))
        \<and> length (pairs (tagsArrOf (Some a))) = length (tagsArrOf (Some a)) div 2
        \<and> (\<forall>k < length (tagsArrOf (Some a)) div 2.
              pairs (tagsArrOf (Some a)) ! k
                = (tagsArrOf (Some a) ! (2 * k), tagsArrOf (Some a) ! (2 * k + 1)))"
    using tagMapOf_even [of "Some a"] length_pairs [of "tagsArrOf (Some a)"]
      pairs_nth [of _ "tagsArrOf (Some a)"]
    by blast
  have w: "kvs \<noteq> [] \<and> (\<forall>kv \<in> set kvs. cleanToken (fst kv) \<and> cleanToken (snd kv)) \<longrightarrow>
        tagsArrOf (Some (renderTag kvs)) = concat (map (\<lambda>kv. [fst kv, snd kv]) kvs)
        \<and> tagMapOf (Some (renderTag kvs)) = Inr (map_of (rev kvs))"
    using tagsArrOf_renderTag [of kvs] tagMapOf_renderTag [of kvs]
    by blast
  from n t e w show ?thesis by (intro conjI)
qed

theorem tag_normalizer_algorithm_witness:
  \<open>renderTag [(''column'', ''id''), (''primary'', ''true'')] = ''`column:"id" primary:"true"`''
   \<and> tagsArrOf (Some ''`column:"id" primary:"true"`'') = [''column'', ''id'', ''primary'', ''true'']
   \<and> tagMapOf (Some ''`column:"id" primary:"true"`'') = Inr [''column'' \<mapsto> ''id'', ''primary'' \<mapsto> ''true'']\<close>
proof -
  have r: \<open>renderTag [(''column'', ''id''), (''primary'', ''true'')] = ''`column:"id" primary:"true"`''\<close>
    by (simp add: renderTag_def renderPair_def)
  have c: "[(''column'', ''id''), (''primary'', ''true'')] \<noteq> []
      \<and> (\<forall>kv \<in> set [(''column'', ''id''), (''primary'', ''true'')]. cleanToken (fst kv) \<and> cleanToken (snd kv))"
    by (simp add: cleanToken_def)
  from tag_normalizer_algorithm [of _ "[(''column'', ''id''), (''primary'', ''true'')]"] c
  have "tagsArrOf (Some (renderTag [(''column'', ''id''), (''primary'', ''true'')]))
          = concat (map (\<lambda>kv. [fst kv, snd kv]) [(''column'', ''id''), (''primary'', ''true'')])
      \<and> tagMapOf (Some (renderTag [(''column'', ''id''), (''primary'', ''true'')]))
          = Inr (map_of (rev [(''column'', ''id''), (''primary'', ''true'')]))"
    by blast
  then show ?thesis unfolding r by (simp add: r)
qed

text \<open>
  Claim C7 as it is worded fails on the code. The tag literal \<^verbatim>\<open>column:"user id"\<close> has a
  value with a space; its tokens are \<open>column, user, id\<close>, the loop reads
  \<^verbatim>\<open>tagsArr[3]\<close> of three tokens and the normalizer stops with an index out of range.
\<close>

theorem spaced_value_counterexample:
  \<open>tagsArrOf (Some ''`column:"user id"`'') = [''column'', ''user'', ''id'']
   \<and> tagMapOf (Some ''`column:"user id"`'') = Inl IndexOutOfRange
   \<and> getStructure ''model'' spacedTagSpec = Inl IndexOutOfRange\<close>
  by (simp add: getStructure_def spacedTagSpec_def getField_def tagMapOf_def tagsArrOf_def TrimSuffix_def)

text \<open>
  Claim C7, amended. For a structure in which every tag has an even number of tokens
  (and every field a name and a type that is an identifier or a selector on one) the
  normalizer completes without a fault, and the tag map of each field pairs its tokens by
  position, \<open>(token[2k], token[2k+1])\<close>, whether or not they are the keys and values that
  were written: a value with spaces in it shifts the pairs silently.
\<close>

theorem normalizer_silent_on_even_tokens:
  assumes "ast_TypeSpec.Type ts = StructType list"
    and "\<forall>v \<in> set list. even (length (tagsArrOf (Tag v)))
           \<and> (\<exists>t. fieldTypeOf (ast_Field.Type v) = Inr t) \<and> Names v \<noteq> []"
  shows "\<exists>s. getStructure pkg ts = Inr s
           \<and> map tags (fields_list s) = map (\<lambda>v. map_of (rev (pairs (tagsArrOf (Tag v))))) list
           \<and> (\<forall>v \<in> set list. tagMapOf (Tag v) = Inr (map_of (rev (pairs (tagsArrOf (Tag v))))))"
proof -
  from assms(2) have "list_all (\<lambda>v. even (length (tagsArrOf (Tag v)))
                   \<and> (\<exists>t. fieldTypeOf (ast_Field.Type v) = Inr t) \<and> Names v \<noteq> []) list"
    by (simp add: list_all_iff)
  with assms(1) getStructure_ok_iff [of pkg ts] obtain s where s: "getStructure pkg ts = Inr s"
    by auto
  then obtain fs where fs: "getFields list = Inr fs" and "fields_list s = fs"
    using assms(1) by (auto simp: getStructure_def split: sum.splits)
  with getFields_tags [OF fs]
  have "map tags (fields_list s) = map (\<lambda>v. map_of (rev (pairs (tagsArrOf (Tag v))))) list"
    by simp
  moreover have "\<forall>v \<in> set list. tagMapOf (Tag v) = Inr (map_of (rev (pairs (tagsArrOf (Tag v)))))"
    using assms(2) tagMapOf_even by blast
  ultimately show ?thesis using s by blast
qed

theorem normalizer_silent_on_even_tokens_witness:
  \<open>tagsArrOf (Some ''`note:"a b" column:"my id"`'') = [''note'', ''a'', ''b'', ''column'', ''my'', ''id'']
   \<and> (\<exists>s. getStructure ''model'' shiftedTagSpec = Inr s
         \<and> map tags (fields_list s) = [[''note'' \<mapsto> ''a'', ''b'' \<mapsto> ''column'', ''my'' \<mapsto> ''id'']])\<close>
proof -
  let ?list = \<open>[\<lparr>Names = [''Text''], ast_Field.Type = Ident ''string'',
                     Tag = Some ''`note:"a b" column:"my id"`''\<rparr>]\<close>
  have t: \<open>tagsArrOf (Some ''`note:"a b" column:"my id"`'') = [''note'', ''a'', ''b'', ''column'', ''my'', ''id'']\<close>
    by (simp add: tagsArrOf_def TrimSuffix_def)
  have a: "ast_TypeSpec.Type shiftedTagSpec = StructType ?list"
    by (simp add: shiftedTagSpec_def)
  have b: "\<forall>v \<in> set ?list. even (length (tagsArrOf (Tag v)))
           \<and> (\<exists>t. fieldTypeOf (ast_Field.Type v) = Inr t) \<and> Names v \<noteq> []"
    by (simp add: t fieldTypeOf_def)
  have m: "map (\<lambda>v. map_of (rev (pairs (tagsArrOf (Tag v))))) ?list
      = [[''note'' \<mapsto> ''a'', ''b'' \<mapsto> ''column'', ''my'' \<mapsto> ''id'']]"
    by (simp add: t)
  from normalizer_silent_on_even_tokens [OF a b, of "''model''"]
  obtain s where s: "getStructure ''model'' shiftedTagSpec = Inr s"
    and ms: "map tags (fields_list s) = map (\<lambda>v. map_of (rev (pairs (tagsArrOf (Tag v))))) ?list"
    by blast
  from ms have x: "map tags (fields_list s) = [[''note'' \<mapsto> ''a'', ''b'' \<mapsto> ''column'', ''my'' \<mapsto> ''id'']]"
    by (simp only: m)
  have "\<exists>s. getStructure ''model'' shiftedTagSpec = Inr s
         \<and> map tags (fields_list s) = [[''note'' \<mapsto> ''a'', ''b'' \<mapsto> ''column'', ''my'' \<mapsto> ''id'']]"
    by (rule exI [of _ s], rule conjI, rule s, rule x)
  with t show ?thesis by (rule conjI)
qed

text \<open>
  Claim C9. What a run of the generator writes is a function of the structure alone: the
  file \<open>repository/<name>_repository.go\<close> receives the text made of the header, the two
  imports, the interface with the four signatures and the four methods, whatever the file
  system held before, and a second run on the result of the first changes nothing. The
  run fails only when the file cannot be written.
\<close>

theorem generate_deterministic:
  "Generate s fs = WriteFile (targetPath s) (fileText s) fs
   \<and> Generate s (snd (Generate s fs)) = Generate s fs
   \<and> contents (snd (Generate s fs)) (targetPath s)
       = (if writable fs (targetPath s) then Some (fileText s) else contents fs (targetPath s))
   \<and> fst (Generate s fs) = (if writable fs (targetPath s) then None else Some WriteFailed)"
  by (simp add: Generate_eq WriteFile_twice WriteFile_contents) (simp add: WriteFile_def)

end
